theory Spec2Isabelle
  imports Main "HOL-Library.Word" "HOL-Library.Signed_Division"
begin

unbundle bit_operations_syntax

section \<open>Shared vocabulary\<close>

text \<open>
  Machine integers of the two drivers. A C \<open>int\<close> is a 32-bit word read with
  \<open>sint\<close>; \<open>unsigned long\<close> and \<open>long\<close> are taken as 64 bits wide.
\<close>

type_synonym u8 = "8 word"
type_synonym u16 = "16 word"
type_synonym u32 = "32 word"
type_synonym u64 = "64 word"

text \<open>
  The ways a handler can fail: the error codes the two files return (negative \<open>errno\<close>
  values in C) and the two faults of the C code that return nothing.
\<close>

datatype error =
    EPERM | EIO | EBUSY | EINVAL | ERANGE | ENOPROTOOPT | EOPNOTSUPP
  | Oops \<comment> \<open>a call through a NULL function pointer: the kernel faults, nothing is returned\<close>
  | Out_of_bounds \<comment> \<open>an access outside the buffer that was passed in: undefined in C\<close>

text \<open>
  C division on \<open>int\<close> truncates towards zero; \<open>sdiv\<close> on \<open>int\<close> is that
  division, and the result is stored back into 32 bits.
\<close>

definition c_div :: "u32 \<Rightarrow> u32 \<Rightarrow> u32" where
  "c_div a b = word_of_int (sint a sdiv sint b)"

subsection \<open>\<open>sprintf\<close> conversions\<close>

text \<open>
  The conversions of \<open>sprintf\<close> that the two files use: \<open>%d\<close> (decimal, a minus
  sign for negative values, no padding), \<open>%x\<close> with its length modifiers (lower-case
  hexadecimal, no padding) and a precision or zero-padded width (at least that many
  digits).
\<close>

definition digit_char :: "nat \<Rightarrow> char" where
  "digit_char d = ''0123456789abcdef'' ! d"

fun digits :: "nat \<Rightarrow> nat \<Rightarrow> string" where
  "digits b n =
     (if n < b \<or> b < 2 then [digit_char n] else digits b (n div b) @ [digit_char (n mod b)])"

declare digits.simps [simp del]

definition zero_pad :: "nat \<Rightarrow> string \<Rightarrow> string" where
  "zero_pad w s = replicate (w - length s) (CHR ''0'') @ s"

definition fmt_d :: "int \<Rightarrow> string" where
  "fmt_d i = (if i < 0 then CHR ''-'' # digits 10 (nat (- i)) else digits 10 (nat i))"

definition fmt_d_prec :: "nat \<Rightarrow> int \<Rightarrow> string" where
  "fmt_d_prec p i =
     (if i < 0 then CHR ''-'' # zero_pad p (digits 10 (nat (- i)))
      else zero_pad p (digits 10 (nat i)))"

definition fmt_x :: "nat \<Rightarrow> string" where
  "fmt_x n = digits 16 n"

section \<open>The MCP9902 temperature sensor driver (\<open>drivers/hwmon/mcp9902.c\<close>)\<close>

subsection \<open>Effects\<close>

text \<open>
  What the driver does to the outside world is recorded as a trace of events: taking and
  releasing the mutex shared with the SPI bus, the two sleeps, and the SMBus transfers.
\<close>

datatype event =
    Mutex_lock
  | Mutex_unlock
  | Usleep_range nat nat
  | Msleep nat
  | I2c_read u8
  | I2c_write u8 u8

text \<open>
  The world of the driver: the runtime power state of the adapter's parent device (what
  \<open>pm_runtime_suspended\<close> answers), the trace, and the chip behind the bus, whose
  type and behaviour are a parameter.
\<close>

record 'c world =
  pm_suspended :: bool
  trace :: "event list"
  chip :: 'c

text \<open>
  The two SMBus transfers. \<open>i2c_smbus_read_byte_data\<close> returns an \<open>s32\<close>: the byte
  read, or a negative error.
\<close>

record 'c i2c_ops =
  read_byte_data :: "'c \<Rightarrow> u8 \<Rightarrow> u32 \<times> 'c"
  write_byte_data :: "'c \<Rightarrow> u8 \<Rightarrow> u8 \<Rightarrow> 'c"

definition emit :: "event \<Rightarrow> 'c world \<Rightarrow> 'c world" where
  "emit e w = w\<lparr>trace := trace w @ [e]\<rparr>"

definition i2c_smbus_read_byte_data :: "'c i2c_ops \<Rightarrow> u8 \<Rightarrow> 'c world \<Rightarrow> u32 \<times> 'c world" where
  "i2c_smbus_read_byte_data ops reg w =
     (let (v, c) = read_byte_data ops (chip w) reg
      in (v, emit (I2c_read reg) (w\<lparr>chip := c\<rparr>)))"

definition i2c_smbus_write_byte_data :: "'c i2c_ops \<Rightarrow> u8 \<Rightarrow> u8 \<Rightarrow> 'c world \<Rightarrow> 'c world" where
  "i2c_smbus_write_byte_data ops reg v w =
     emit (I2c_write reg v) (w\<lparr>chip := write_byte_data ops (chip w) reg v\<rparr>)"

subsection \<open>The shared-clock mutex\<close>

definition spi_lock :: "'c world \<Rightarrow> 'c world" where
  "spi_lock w = emit Mutex_lock w"

definition spi_unlock :: "'c world \<Rightarrow> 'c world" where
  "spi_unlock w =
     (let w1 = (if \<not> pm_suspended w then emit (Usleep_range 100 200) w else w);
          w2 = emit (Msleep 1) w1
      in emit Mutex_unlock w2)"

subsection \<open>Conversions\<close>

definition temp_from_reg :: "u32 \<Rightarrow> u32 \<Rightarrow> u32" where
  "temp_from_reg val fraction =
     ((val - 64) * 1000) + (drop_bit 5 (fraction AND 0xE0) * 125)"

definition temp_to_reg :: "u32 \<Rightarrow> u32" where
  "temp_to_reg val = c_div (val + 64) 1000"

subsection \<open>Registers and client data\<close>

datatype temp_index =
    t_input1
  | t_input1_fraction
  | t_input2
  | t_input2_fraction
  | t_low1
  | t_high1
  | t_crit1
  | t_low2
  | t_high2
  | t_crit2
  | t_hyst

definition all_temp_index :: "temp_index list" where
  "all_temp_index =
     [t_input1, t_input1_fraction, t_input2, t_input2_fraction, t_low1, t_high1, t_crit1,
      t_low2, t_high2, t_crit2, t_hyst]"

definition MCP9902_REG_R_STATUS :: u8 where
  "MCP9902_REG_R_STATUS = 0x02"

fun regs_read :: "temp_index \<Rightarrow> u8" where
  "regs_read t_input1 = 0x00"
| "regs_read t_input1_fraction = 0x29"
| "regs_read t_input2 = 0x01"
| "regs_read t_input2_fraction = 0x10"
| "regs_read t_low1 = 0x06"
| "regs_read t_high1 = 0x05"
| "regs_read t_crit1 = 0x20"
| "regs_read t_low2 = 0x08"
| "regs_read t_high2 = 0x07"
| "regs_read t_crit2 = 0x19"
| "regs_read t_hyst = 0x21"

text \<open>Entries that the initialiser of \<open>regs_write\<close> leaves out are zero.\<close>

fun regs_write :: "temp_index \<Rightarrow> u8" where
  "regs_write t_low1 = 0x0C"
| "regs_write t_high1 = 0x0B"
| "regs_write t_crit1 = 0x20"
| "regs_write t_low2 = 0x0E"
| "regs_write t_high2 = 0x0D"
| "regs_write t_crit2 = 0x19"
| "regs_write t_hyst = 0x21"
| "regs_write _ = 0x00"

record mcp9902_data =
  valid :: bool
  last_updated :: u64
  temp :: "temp_index \<Rightarrow> u8"
  alarms :: u8

text \<open>\<open>time_after(a, b)\<close> is \<open>(long)(b - a) < 0\<close> on \<open>unsigned long\<close>.\<close>

definition time_after :: "u64 \<Rightarrow> u64 \<Rightarrow> bool" where
  "time_after a b = (sint (b - a) < 0)"

subsection \<open>Refreshing the cache\<close>

text \<open>The inner loop: one read per register, the \<open>s32\<close> result stored into a \<open>u8\<close>.\<close>

fun read_temps :: "'c i2c_ops \<Rightarrow> temp_index list \<Rightarrow> mcp9902_data \<times> 'c world \<Rightarrow> mcp9902_data \<times> 'c world" where
  "read_temps ops [] dw = dw"
| "read_temps ops (i # is) (d, w) =
     (let (v, w') = i2c_smbus_read_byte_data ops (regs_read i) w
      in read_temps ops is (d\<lparr>temp := (temp d)(i := ucast v)\<rparr>, w'))"

definition read_burst :: "'c i2c_ops \<Rightarrow> mcp9902_data \<times> 'c world \<Rightarrow> mcp9902_data \<times> 'c world" where
  "read_burst ops dw =
     (let (d, w) = dw;
          (d1, w1) = read_temps ops all_temp_index (d, spi_lock w);
          (v, w2) = i2c_smbus_read_byte_data ops MCP9902_REG_R_STATUS w1
      in (d1\<lparr>alarms := ucast v\<rparr>, spi_unlock w2))"

text \<open>The outer loop \<open>for (j = 0; j < 20; j++)\<close>.\<close>

primrec read_bursts :: "nat \<Rightarrow> 'c i2c_ops \<Rightarrow> mcp9902_data \<times> 'c world \<Rightarrow> mcp9902_data \<times> 'c world" where
  "read_bursts 0 ops dw = dw"
| "read_bursts (Suc n) ops dw = read_bursts n ops (read_burst ops dw)"

text \<open>
  \<open>mcp9902_update_device\<close>. The kernel's tick counter is read twice: \<open>jiffies0\<close> is
  its value at the staleness test and \<open>jiffies1\<close> its value when the refresh is
  stamped. The handlers run one at a time here, so the per-device \<open>update_lock\<close>, which
  is taken and released around the whole body, leaves no mark.
\<close>

definition mcp9902_update_device ::
  "'c i2c_ops \<Rightarrow> u64 \<Rightarrow> u64 \<Rightarrow> mcp9902_data \<times> 'c world \<Rightarrow> mcp9902_data \<times> 'c world" where
  "mcp9902_update_device ops jiffies0 jiffies1 dw =
     (if time_after jiffies0 (last_updated (fst dw) + 1) \<or> \<not> valid (fst dw)
      then (let (d, w) = read_bursts 20 ops dw
            in (d\<lparr>last_updated := jiffies1, valid := True\<rparr>, w))
      else dw)"

subsection \<open>The attribute handlers\<close>

definition temp_show ::
  "'c i2c_ops \<Rightarrow> u64 \<Rightarrow> u64 \<Rightarrow> temp_index \<Rightarrow> mcp9902_data \<times> 'c world
     \<Rightarrow> string \<times> mcp9902_data \<times> 'c world" where
  "temp_show ops jiffies0 jiffies1 index dw =
     (let (d, w) = mcp9902_update_device ops jiffies0 jiffies1 dw;
          fraction_reg =
            (case index of
               t_input1 \<Rightarrow> temp d t_input1_fraction
             | t_input2 \<Rightarrow> temp d t_input2_fraction
             | _ \<Rightarrow> 0)
      in (fmt_d (sint (temp_from_reg (ucast (temp d index)) (ucast fraction_reg))) @ [CHR 0x0A],
          d, w))"

text \<open>
  \<open>temp_store\<close>. \<open>kstrtol\<close> is a parameter: it parses the decimal text of the write
  into a \<open>long\<close> or fails with an error, which the handler passes on. The \<open>long\<close> is
  narrowed to the \<open>int\<close> argument of \<open>temp_to_reg\<close> and the result to the \<open>u8\<close>
  cache entry.
\<close>

definition temp_store ::
  "'c i2c_ops \<Rightarrow> (string \<Rightarrow> error + u64) \<Rightarrow> temp_index \<Rightarrow> string \<Rightarrow> nat
     \<Rightarrow> mcp9902_data \<times> 'c world \<Rightarrow> (error + nat) \<times> mcp9902_data \<times> 'c world" where
  "temp_store ops kstrtol index buf count dw =
     (case kstrtol buf of
        Inl err \<Rightarrow> (Inl err, dw)
      | Inr val \<Rightarrow>
          (let (d, w) = dw;
               d1 = d\<lparr>temp := (temp d)(index := ucast (temp_to_reg (ucast val)))\<rparr>;
               w1 = spi_lock w;
               w2 = i2c_smbus_write_byte_data ops (regs_write index) (temp d1 index) w1;
               w3 = spi_unlock w2
           in (Inr count, d1, w3)))"

text \<open>
  A chip for the scenarios: a register file that answers every read with the byte stored
  at the address read, and stores every byte written.
\<close>

definition register_file_ops :: "(u8 \<Rightarrow> u8) i2c_ops" where
  "register_file_ops =
     \<lparr>read_byte_data = (\<lambda>c reg. (ucast (c reg), c)),
      write_byte_data = (\<lambda>c reg v. c(reg := v))\<rparr>"

section \<open>The DSA master device (\<open>net/dsa/master.c\<close>)\<close>

subsection \<open>Scanning the text of a write\<close>

text \<open>
  Modelled from the spec: \<open>sscanf\<close> (the kernel's \<open>vsscanf\<close> with
  \<open>simple_strntoull\<close> and \<open>simple_strntoll\<close>) is not among the sources. The control
  surface takes its writes as \<open>"<port-index>:<hex-value>"\<close>,
  \<open>"<page-hex>:<reg-hex>:<width-hex>"\<close>,
  \<open>"<page-hex>:<reg-hex>:<width-hex>:<value-hex>"\<close> and \<open>"0"/"1"\<close>, and validates
  the number of tokens converted. The definitions of this subsection scan such a text the
  way C scans it for the conversions \<open>%d\<close> and \<open>%x\<close>.

  A write handler receives \<open>count\<close> bytes in \<open>buf\<close>, with a NUL after them; the C
  string that \<open>sscanf\<close> and the name lookup see ends at the first NUL.
\<close>

definition cstr :: "string \<Rightarrow> string" where
  "cstr buf = takeWhile (\<lambda>c. c \<noteq> CHR 0x00) buf"

definition isspace :: "char \<Rightarrow> bool" where
  "isspace c = (c \<in> set [CHR 0x20, CHR 0x09, CHR 0x0A, CHR 0x0B, CHR 0x0C, CHR 0x0D, CHR 0xA0])"

definition isdigit :: "char \<Rightarrow> bool" where
  "isdigit c = (48 \<le> (of_char c :: nat) \<and> (of_char c :: nat) \<le> 57)"

definition digit_val :: "char \<Rightarrow> nat option" where
  "digit_val c =
     (let n = (of_char c :: nat)
      in if 48 \<le> n \<and> n \<le> 57 then Some (n - 48)
         else if 97 \<le> n \<and> n \<le> 102 then Some (n - 87)
         else if 65 \<le> n \<and> n \<le> 70 then Some (n - 55)
         else None)"

definition isxdigit :: "char \<Rightarrow> bool" where
  "isxdigit c = (digit_val c \<noteq> None)"

definition skip_spaces :: "string \<Rightarrow> string" where
  "skip_spaces s = dropWhile isspace s"

text \<open>
  The digits of a number are accumulated in an \<open>unsigned long long\<close>, which wraps; the
  scan stops at the first character that is not a digit of the base.
\<close>

fun parse_integer :: "nat \<Rightarrow> string \<Rightarrow> u64 \<Rightarrow> u64 \<times> string" where
  "parse_integer base [] res = (res, [])"
| "parse_integer base (c # cs) res =
     (case digit_val c of
        None \<Rightarrow> (res, c # cs)
      | Some v \<Rightarrow>
          if base \<le> v then (res, c # cs)
          else parse_integer base cs (res * of_nat base + of_nat v))"

definition simple_strntoull :: "nat \<Rightarrow> string \<Rightarrow> u64 \<times> string" where
  "simple_strntoull base s =
     (case s of
        a # b # r \<Rightarrow>
          if base = 16 \<and> a = CHR ''0'' \<and> (b = CHR ''x'' \<or> b = CHR ''X'')
          then parse_integer base r 0
          else parse_integer base s 0
      | _ \<Rightarrow> parse_integer base s 0)"

definition simple_strntoll :: "nat \<Rightarrow> string \<Rightarrow> u64 \<times> string" where
  "simple_strntoll base s =
     (case s of
        c # r \<Rightarrow>
          if c = CHR ''-'' then (let (v, next) = simple_strntoull base r in (- v, next))
          else simple_strntoull base s
      | [] \<Rightarrow> simple_strntoull base s)"

text \<open>
  A format is a list of directives: a literal character, which must match the next
  character of the input, or an integer conversion with its base and signedness. The
  length modifier of a conversion only chooses the width of the variable the value is
  stored in, so it is applied by the caller.
\<close>

datatype directive = Lit char | Conv nat bool

abbreviation conv_d :: directive where
  "conv_d \<equiv> Conv 10 True"

abbreviation conv_x :: directive where
  "conv_x \<equiv> Conv 16 False"

text \<open>
  The scan goes through the format; a conversion skips white space, wants a digit of its
  base (after an optional minus sign when signed) and converts the longest run of digits;
  the scan stops at the first directive that does not match. The result is the list of
  converted values, whose length is the number that \<open>sscanf\<close> returns.
\<close>

fun vsscanf :: "directive list \<Rightarrow> string \<Rightarrow> u64 list" where
  "vsscanf [] str = []"
| "vsscanf (Lit c # fmt) str =
     (case str of
        [] \<Rightarrow> []
      | x # xs \<Rightarrow> if x = c then vsscanf fmt xs else [])"
| "vsscanf (Conv base is_sign # fmt) str =
     (if str = [] then []
      else
        (let s = skip_spaces str;
             digit =
               (case s of
                  [] \<Rightarrow> None
                | c # r \<Rightarrow>
                    if is_sign \<and> c = CHR ''-'' then (case r of [] \<Rightarrow> None | c' # _ \<Rightarrow> Some c')
                    else Some c)
         in case digit of
              None \<Rightarrow> []
            | Some dg \<Rightarrow>
                if (base = 16 \<and> \<not> isxdigit dg) \<or> (base = 10 \<and> \<not> isdigit dg) then []
                else
                  (let vn = (if is_sign then simple_strntoll base s else simple_strntoull base s)
                   in fst vn # vsscanf fmt (snd vn))))"

definition sscanf :: "string \<Rightarrow> directive list \<Rightarrow> u64 list" where
  "sscanf buf fmt = vsscanf fmt (cstr buf)"

subsection \<open>Tagging protocol drivers\<close>

text \<open>
  A tagger (\<open>struct dsa_device_ops\<close>), with the module that provides it. Two pointers
  to taggers are equal when the records are.
\<close>

record dsa_device_ops =
  name :: string
  proto :: int
  promisc_on_master :: bool
  owner :: string

subsection \<open>Switch, ports and master device\<close>

datatype dsa_port_type =
    DSA_PORT_TYPE_UNUSED
  | DSA_PORT_TYPE_CPU
  | DSA_PORT_TYPE_DSA
  | DSA_PORT_TYPE_USER

record ifreq =
  ifr_name :: string
  ifr_data :: u64

text \<open>
  The operations of a switch driver that the file calls. Each is a function pointer that
  may be NULL; \<open>'d\<close> is the private state of the driver. An operation returns its C
  return value and the new state; \<open>get_strings\<close> returns the block of bytes that the
  driver writes at the pointer it is given.
\<close>

record 'd dsa_switch_ops =
  change_tag_protocol :: "('d \<Rightarrow> int \<Rightarrow> int \<Rightarrow> int \<times> 'd) option"
  port_get_pvlan :: "('d \<Rightarrow> int \<Rightarrow> u16) option"
  port_change_pvlan :: "('d \<Rightarrow> int \<Rightarrow> u16 \<Rightarrow> 'd) option"
  switch_setup_get_reg :: "('d \<Rightarrow> u8 \<Rightarrow> u8 \<Rightarrow> u8 \<Rightarrow> int \<times> 'd) option"
  switch_get_reg :: "('d \<Rightarrow> (int \<times> u8 \<times> u64) \<times> 'd) option"
  switch_set_reg :: "('d \<Rightarrow> u8 \<Rightarrow> u8 \<Rightarrow> u8 \<Rightarrow> u64 \<Rightarrow> int \<times> 'd) option"
  get_strings :: "('d \<Rightarrow> int \<Rightarrow> u32 \<Rightarrow> string) option"
  get_sset_count :: "('d \<Rightarrow> int \<Rightarrow> u32 \<Rightarrow> int) option"

text \<open>
  The master's own \<open>ethtool_ops\<close> (saved in \<open>orig_ethtool_ops\<close>), as far as the
  string table needs them; \<open>eth_get_ethtool_phy_stats\<close> says whether that pointer is
  set.
\<close>

record ethtool_ops =
  eth_get_sset_count :: "(u32 \<Rightarrow> int) option"
  eth_get_strings :: "(u32 \<Rightarrow> string) option"
  eth_get_ethtool_phy_stats :: bool

text \<open>
  The PHY attached to the master: what \<open>phy_ethtool_get_sset_count\<close> returns and the
  bytes that \<open>phy_ethtool_get_strings\<close> writes.
\<close>

record phy_device =
  phy_sset_count :: int
  phy_strings :: string

text \<open>
  A port of the switch tree. \<open>ds_ops\<close> is \<open>dp->ds->ops\<close>; \<open>supports_hwtstamp\<close> is the
  answer of \<open>dsa_port_supports_hwtstamp(dp, ifr)\<close>, which is declared outside this
  file.
\<close>

record 'd dsa_port =
  index :: int
  type :: dsa_port_type
  ds_ops :: "'d dsa_switch_ops"
  tag_ops :: dsa_device_ops
  orig_ethtool_ops :: ethtool_ops
  supports_hwtstamp :: "ifreq \<Rightarrow> bool"

text \<open>
  The master device \<open>dev\<close>: its CPU port \<open>dev->dsa_ptr\<close>, the ports of the tree
  \<open>dev->dsa_ptr->ds->dst->ports\<close>, its PHY and its own ioctl handler
  \<open>dev->netdev_ops->ndo_eth_ioctl\<close>.
\<close>

record 'd net_device =
  dsa_ptr :: "'d dsa_port"
  ports :: "'d dsa_port list"
  phydev :: "phy_device option"
  ndo_eth_ioctl :: "(ifreq \<Rightarrow> int \<Rightarrow> error + int) option"

text \<open>What the handlers do to the switch driver and to the shared-clock mutex.\<close>

datatype call =
    Change_tag_protocol int int
  | Port_change_pvlan int u16
  | Switch_setup_get_reg u8 u8 u8
  | Switch_get_reg
  | Switch_set_reg u8 u8 u8 u64
  | Spi_mutex_lock
  | Spi_mutex_force_unlock

text \<open>
  The state the attribute handlers work on: the master device \<open>dev\<close>, the private state of the
  switch \<open>dev->dsa_ptr->ds\<close>, the registry of tagging drivers with the availability and
  the reference count of each provider, the flag \<open>datum_spi2_i2c3_clock_short\<close>, and
  the calls made so far.
\<close>

record 'd kernel =
  netdev :: "'d net_device"
  ds_priv :: 'd
  tag_drivers :: "dsa_device_ops list"
  module_live :: "string \<Rightarrow> bool"
  module_refs :: "string \<Rightarrow> int"
  clock_short :: bool
  calls :: "call list"

definition log_call :: "call \<Rightarrow> 'd kernel \<Rightarrow> 'd kernel" where
  "log_call c k = k\<lparr>calls := calls k @ [c]\<rparr>"

subsection \<open>The string table handed to ethtool\<close>

text \<open>
  \<open>ETH_GSTRING_LEN\<close> and \<open>ETH_SS_PHY_STATS\<close> come from the ethtool header.
\<close>

definition ETH_GSTRING_LEN :: nat where
  "ETH_GSTRING_LEN = 32"

definition ETH_SS_PHY_STATS :: u32 where
  "ETH_SS_PHY_STATS = 7"

text \<open>
  The buffer \<open>data\<close> is a list of bytes; an offset into it is a pointer. Copies that
  would leave the buffer are faults.
\<close>

definition memcpy :: "nat \<Rightarrow> string \<Rightarrow> string \<Rightarrow> error + string" where
  "memcpy dst bytes buf =
     (if dst + length bytes \<le> length buf
      then Inr (take dst buf @ bytes @ drop (dst + length bytes) buf)
      else Inl Out_of_bounds)"

definition memmove :: "nat \<Rightarrow> nat \<Rightarrow> nat \<Rightarrow> string \<Rightarrow> error + string" where
  "memmove dst src n buf =
     (if src + n \<le> length buf then memcpy dst (take n (drop src buf)) buf
      else Inl Out_of_bounds)"

text \<open>
  \<open>snprintf(pfx, sizeof(pfx), "p%.2d", port)\<close> keeps the first three characters and
  ends them with a NUL, which is then overwritten: \<open>pfx[sizeof(pfx) - 1] = '_'\<close>.
\<close>

definition port_pfx :: "int \<Rightarrow> string" where
  "port_pfx port = (take 3 (CHR ''p'' # fmt_d_prec 2 port) @ [CHR 0x00])[3 := CHR ''_'']"

text \<open>
  The first half of \<open>dsa_master_get_strings\<close>: the strings of the master itself, from
  its PHY or from its own ethtool operations. The result is \<open>mcount\<close> and the buffer.
\<close>

definition master_get_strings :: "'d net_device \<Rightarrow> u32 \<Rightarrow> string \<Rightarrow> error + (int \<times> string)" where
  "master_get_strings dev stringset data =
     (let ops = orig_ethtool_ops (dsa_ptr dev)
      in if stringset = ETH_SS_PHY_STATS \<and> phydev dev \<noteq> None \<and> \<not> eth_get_ethtool_phy_stats ops
         then
           (case phydev dev of
              None \<Rightarrow> Inr (0, data)
            | Some phy \<Rightarrow>
                (let mcount = phy_sset_count phy
                 in if mcount < 0 then Inr (0, data)
                    else (case memcpy 0 (phy_strings phy) data of
                            Inl e \<Rightarrow> Inl e
                          | Inr data1 \<Rightarrow> Inr (mcount, data1))))
         else
           (case eth_get_sset_count ops of
              None \<Rightarrow> Inr (0, data)
            | Some sset_count \<Rightarrow>
                (case eth_get_strings ops of
                   None \<Rightarrow> Inr (0, data)
                 | Some strings \<Rightarrow>
                     (let mcount = sset_count stringset;
                          mcount = (if mcount < 0 then 0 else mcount)
                      in case memcpy 0 (strings stringset) data of
                           Inl e \<Rightarrow> Inl e
                         | Inr data1 \<Rightarrow> Inr (mcount, data1)))))"

text \<open>
  The loop \<open>for (i = 0; i < count; i++)\<close> over the strings of the switch port, with
  \<open>k = count - i\<close> iterations left: the string is moved up by the size of the prefix
  within its \<open>len\<close> bytes and the prefix is copied in front. \<open>sizeof(pfx)\<close> is the
  length of \<open>pfx\<close>, four bytes.
\<close>

primrec prefix_strings :: "nat \<Rightarrow> nat \<Rightarrow> nat \<Rightarrow> string \<Rightarrow> string \<Rightarrow> error + string" where
  "prefix_strings 0 i ndata pfx buf = Inr buf"
| "prefix_strings (Suc k) i ndata pfx buf =
     (case memmove (ndata + (i * ETH_GSTRING_LEN + length pfx)) (ndata + i * ETH_GSTRING_LEN)
             (ETH_GSTRING_LEN - length pfx) buf of
        Inl e \<Rightarrow> Inl e
      | Inr buf1 \<Rightarrow>
          (case memcpy (ndata + i * ETH_GSTRING_LEN) pfx buf1 of
             Inl e \<Rightarrow> Inl e
           | Inr buf2 \<Rightarrow> prefix_strings k (Suc i) ndata pfx buf2))"

definition dsa_master_get_strings :: "'d net_device \<Rightarrow> 'd \<Rightarrow> u32 \<Rightarrow> string \<Rightarrow> error + string" where
  "dsa_master_get_strings dev priv stringset data =
     (let cpu_dp = dsa_ptr dev;
          port = index cpu_dp;
          len = ETH_GSTRING_LEN;
          pfx = port_pfx port
      in case master_get_strings dev stringset data of
           Inl e \<Rightarrow> Inl e
         | Inr (mcount, data1) \<Rightarrow>
             (case get_strings (ds_ops cpu_dp) of
                None \<Rightarrow> Inr data1
              | Some strings \<Rightarrow>
                  (let ndata = nat mcount * len
                   in case memcpy ndata (strings priv port stringset) data1 of
                        Inl e \<Rightarrow> Inl e
                      | Inr data2 \<Rightarrow>
                          (case get_sset_count (ds_ops cpu_dp) of
                             None \<Rightarrow> Inl Oops
                           | Some sset_count \<Rightarrow>
                               (let count = sset_count priv port stringset
                                in if count < 0 then Inr data2
                                   else prefix_strings (nat count) 0 ndata pfx data2)))))"

subsection \<open>The ioctl intercept\<close>

text \<open>The two timestamping requests, from the socket ioctl header.\<close>

definition SIOCSHWTSTAMP :: int where
  "SIOCSHWTSTAMP = 0x89b0"

definition SIOCGHWTSTAMP :: int where
  "SIOCGHWTSTAMP = 0x89b1"

text \<open>\<open>list_for_each_entry(dp, &dst->ports, list)\<close> with its early return.\<close>

fun any_port_supports_hwtstamp :: "'d dsa_port list \<Rightarrow> ifreq \<Rightarrow> bool" where
  "any_port_supports_hwtstamp [] ifr = False"
| "any_port_supports_hwtstamp (dp # dps) ifr =
     (if supports_hwtstamp dp ifr then True else any_port_supports_hwtstamp dps ifr)"

definition dsa_master_ioctl :: "'d net_device \<Rightarrow> ifreq \<Rightarrow> int \<Rightarrow> error + int" where
  "dsa_master_ioctl dev ifr cmd =
     (if (cmd = SIOCGHWTSTAMP \<or> cmd = SIOCSHWTSTAMP) \<and> any_port_supports_hwtstamp (ports dev) ifr
      then Inl EBUSY
      else (case ndo_eth_ioctl dev of
              None \<Rightarrow> Inl EOPNOTSUPP
            | Some ioctl \<Rightarrow> ioctl ifr cmd))"

subsection \<open>Changing the tagging protocol\<close>

text \<open>
  Modelled from the spec: \<open>dsa_find_tagger_by_name\<close> is not among the sources. It looks
  the protocol up by name in the registry and fails with NotFound if the name is unknown
  or the provider is unavailable; acquiring the protocol increments the count on its
  provider.
\<close>

definition dsa_find_tagger_by_name :: "string \<Rightarrow> 'd kernel \<Rightarrow> (error + dsa_device_ops) \<times> 'd kernel" where
  "dsa_find_tagger_by_name buf k =
     (case find (\<lambda>t. name t = buf) (tag_drivers k) of
        None \<Rightarrow> (Inl ENOPROTOOPT, k)
      | Some t \<Rightarrow>
          if module_live k (owner t)
          then (Inr t, k\<lparr>module_refs := (module_refs k)(owner t := module_refs k (owner t) + 1)\<rparr>)
          else (Inl ENOPROTOOPT, k))"

text \<open>
  Modelled from the spec: \<open>dsa_tag_driver_put\<close> is not among the sources. Releasing a
  protocol decrements the count on its provider.
\<close>

definition dsa_tag_driver_put :: "dsa_device_ops \<Rightarrow> 'd kernel \<Rightarrow> 'd kernel" where
  "dsa_tag_driver_put t k =
     k\<lparr>module_refs := (module_refs k)(owner t := module_refs k (owner t) - 1)\<rparr>"

text \<open>
  Modelled from the spec: \<open>dsa_tree_change_tag_proto\<close> is not among the sources. It
  attempts the tree-wide reconfiguration; \<open>apply\<close> tells whether every port of the
  tree takes the new framing, or the error. On success the new protocol is the active
  one; on failure the active protocol is unchanged (the old tagger is restored) and the
  error is passed on.
\<close>

definition dsa_tree_change_tag_proto ::
  "(dsa_device_ops \<Rightarrow> dsa_device_ops \<Rightarrow> error option) \<Rightarrow> dsa_device_ops \<Rightarrow> dsa_device_ops
     \<Rightarrow> 'd kernel \<Rightarrow> error option \<times> 'd kernel" where
  "dsa_tree_change_tag_proto apply new_tag_ops old_tag_ops k =
     (case apply new_tag_ops old_tag_ops of
        Some err \<Rightarrow> (Some err, k)
      | None \<Rightarrow>
          (None, k\<lparr>netdev := (netdev k)\<lparr>dsa_ptr := (dsa_ptr (netdev k))\<lparr>tag_ops := new_tag_ops\<rparr>\<rparr>\<rparr>))"

definition tagging_cpu_store ::
  "(dsa_device_ops \<Rightarrow> dsa_device_ops \<Rightarrow> error option) \<Rightarrow> string \<Rightarrow> nat \<Rightarrow> 'd kernel
     \<Rightarrow> (error + nat) \<times> 'd kernel" where
  "tagging_cpu_store apply buf count k =
     (let old_tag_ops = tag_ops (dsa_ptr (netdev k))
      in case dsa_find_tagger_by_name (cstr buf) k of
           (Inl e, k1) \<Rightarrow> (Inl e, k1)
         | (Inr new_tag_ops, k1) \<Rightarrow>
             if new_tag_ops = old_tag_ops then (Inr count, dsa_tag_driver_put old_tag_ops k1)
             else
               (case dsa_tree_change_tag_proto apply new_tag_ops old_tag_ops k1 of
                  (Some err, k2) \<Rightarrow> (Inl err, dsa_tag_driver_put new_tag_ops k2)
                | (None, k2) \<Rightarrow> (Inr count, dsa_tag_driver_put old_tag_ops k2)))"

definition tagging_imp_store :: "string \<Rightarrow> nat \<Rightarrow> 'd kernel \<Rightarrow> (error + nat) \<times> 'd kernel" where
  "tagging_imp_store buf count k =
     (case dsa_find_tagger_by_name (cstr buf) k of
        (Inl e, k1) \<Rightarrow> (Inl e, k1)
      | (Inr new_tag_ops, k1) \<Rightarrow>
          (case change_tag_protocol (ds_ops (dsa_ptr (netdev k1))) of
             None \<Rightarrow> (Inl EOPNOTSUPP, k1)
           | Some change \<Rightarrow>
               (let (ret, priv) = change (ds_priv k1) 8 (proto new_tag_ops)
                in (Inr count,
                    log_call (Change_tag_protocol 8 (proto new_tag_ops)) (k1\<lparr>ds_priv := priv\<rparr>)))))"

subsection \<open>Port VLAN membership\<close>

text \<open>
  The loop of \<open>pvlan_store\<close> over the ports of the tree. The operation tested is
  \<open>port_get_pvlan\<close> of the port's switch; the one called is its
  \<open>port_change_pvlan\<close>, on the switch of the CPU port.
\<close>

fun pvlan_store_ports ::
  "'d dsa_port list \<Rightarrow> int \<Rightarrow> u16 \<Rightarrow> nat \<Rightarrow> 'd kernel \<Rightarrow> (error + nat) \<times> 'd kernel" where
  "pvlan_store_ports [] idx val count k = (Inl EINVAL, k)"
| "pvlan_store_ports (dp # dps) idx val count k =
     (if index dp = idx \<and> type dp \<noteq> DSA_PORT_TYPE_UNUSED
      then
        (case port_get_pvlan (ds_ops dp) of
           None \<Rightarrow> (Inl EOPNOTSUPP, k)
         | Some _ \<Rightarrow>
             (case port_change_pvlan (ds_ops dp) of
                None \<Rightarrow> (Inl Oops, k)
              | Some change \<Rightarrow>
                  (Inr count,
                   log_call (Port_change_pvlan idx val) (k\<lparr>ds_priv := change (ds_priv k) idx val\<rparr>))))
      else pvlan_store_ports dps idx val count k)"

definition pvlan_store :: "string \<Rightarrow> nat \<Rightarrow> 'd kernel \<Rightarrow> (error + nat) \<times> 'd kernel" where
  "pvlan_store buf count k =
     (case sscanf buf [conv_d, Lit (CHR '':''), conv_x] of
        [idx, val] \<Rightarrow>
          pvlan_store_ports (ports (netdev k)) (sint (ucast idx :: u32)) (ucast val) count k
      | _ \<Rightarrow> (Inl EINVAL, k))"

subsection \<open>Raw register access\<close>

definition rdreg_show :: "'d kernel \<Rightarrow> (error + string) \<times> 'd kernel" where
  "rdreg_show k =
     (case switch_get_reg (ds_ops (dsa_ptr (netdev k))) of
        None \<Rightarrow> (Inl Oops, k)
      | Some get_reg \<Rightarrow>
          (let ((ret, size', val), priv) = get_reg (ds_priv k);
               k1 = log_call Switch_get_reg (k\<lparr>ds_priv := priv\<rparr>)
           in if ret \<noteq> 0 then (Inl EIO, k1)
              else if size' = 1 then (Inr (fmt_x (unat (ucast val :: u8)) @ [CHR 0x0A]), k1)
              else if size' = 2 then (Inr (fmt_x (unat (ucast val :: u16)) @ [CHR 0x0A]), k1)
              else if size' = 4 then (Inr (fmt_x (unat (ucast val :: u32)) @ [CHR 0x0A]), k1)
              else if size' = 6 then (Inr (fmt_x (unat val) @ [CHR 0x0A]), k1)
              else if size' = 8 then (Inr (fmt_x (unat val) @ [CHR 0x0A]), k1)
              else (Inl EIO, k1)))"

definition rdreg_store :: "string \<Rightarrow> nat \<Rightarrow> 'd kernel \<Rightarrow> (error + nat) \<times> 'd kernel" where
  "rdreg_store buf count k =
     (case sscanf buf [conv_x, Lit (CHR '':''), conv_x, Lit (CHR '':''), conv_x] of
        [page, reg, size'] \<Rightarrow>
          (case switch_setup_get_reg (ds_ops (dsa_ptr (netdev k))) of
             None \<Rightarrow> (Inl Oops, k)
           | Some setup_get_reg \<Rightarrow>
               (let (ret, priv) = setup_get_reg (ds_priv k) (ucast page) (ucast reg) (ucast size');
                    k1 = log_call (Switch_setup_get_reg (ucast page) (ucast reg) (ucast size'))
                           (k\<lparr>ds_priv := priv\<rparr>)
                in if ret \<noteq> 0 then (Inl EIO, k1) else (Inr count, k1)))
      | _ \<Rightarrow> (Inl EINVAL, k))"

definition wrreg_show :: "'d kernel \<Rightarrow> (error + string) \<times> 'd kernel" where
  "wrreg_show k = (Inl EPERM, k)"

definition wrreg_store :: "string \<Rightarrow> nat \<Rightarrow> 'd kernel \<Rightarrow> (error + nat) \<times> 'd kernel" where
  "wrreg_store buf count k =
     (case sscanf buf [conv_x, Lit (CHR '':''), conv_x, Lit (CHR '':''), conv_x, Lit (CHR '':''), conv_x] of
        [page, reg, size', val] \<Rightarrow>
          (case switch_set_reg (ds_ops (dsa_ptr (netdev k))) of
             None \<Rightarrow> (Inl Oops, k)
           | Some set_reg \<Rightarrow>
               (let (ret, priv) = set_reg (ds_priv k) (ucast page) (ucast reg) (ucast size') val;
                    k1 = log_call (Switch_set_reg (ucast page) (ucast reg) (ucast size') val)
                           (k\<lparr>ds_priv := priv\<rparr>)
                in if ret \<noteq> 0 then (Inl EIO, k1) else (Inr count, k1)))
      | _ \<Rightarrow> (Inl EINVAL, k))"

subsection \<open>The clock-short switch\<close>

definition spi_mutex_show :: "'d kernel \<Rightarrow> (error + string) \<times> 'd kernel" where
  "spi_mutex_show k = (Inr (if clock_short k then ''1'' @ [CHR 0x0A] else ''0'' @ [CHR 0x0A]), k)"

definition spi_mutex_store :: "string \<Rightarrow> nat \<Rightarrow> 'd kernel \<Rightarrow> (error + nat) \<times> 'd kernel" where
  "spi_mutex_store buf count k =
     (if count \<noteq> 2 then (Inl EINVAL, k)
      else
        (case sscanf buf [conv_d] of
           [v] \<Rightarrow>
             (let mutex_enable = (ucast v :: u32)
              in if mutex_enable \<noteq> 0 \<and> mutex_enable \<noteq> 1 then (Inl EINVAL, k)
                 else
                   (let k1 = log_call Spi_mutex_lock k;
                        k2 = k1\<lparr>clock_short := (mutex_enable \<noteq> 0)\<rparr>
                    in (Inr count, log_call Spi_mutex_force_unlock k2)))
         | _ \<Rightarrow> (Inl EINVAL, k)))"

subsection \<open>A switch driver with a debug register port\<close>

text \<open>
  Modelled from the spec: the switch driver behind \<open>switch_setup_get_reg\<close>,
  \<open>switch_get_reg\<close> and \<open>switch_set_reg\<close> is not among the sources. Preparing a
  read validates that the width is one of 1, 2, 4, 6 and 8 and stores the address triple
  as pending context; "get register" returns the width and the value; "set register"
  validates the same widths. A rejected request returns a non-zero value.
\<close>

record debug_port =
  pending :: "(u8 \<times> u8 \<times> u8) option"
  registers :: "u8 \<Rightarrow> u8 \<Rightarrow> u64"

definition valid_width :: "u8 \<Rightarrow> bool" where
  "valid_width w = (w = 1 \<or> w = 2 \<or> w = 4 \<or> w = 6 \<or> w = 8)"

definition debug_setup_get_reg :: "debug_port \<Rightarrow> u8 \<Rightarrow> u8 \<Rightarrow> u8 \<Rightarrow> int \<times> debug_port" where
  "debug_setup_get_reg d page reg width =
     (if valid_width width then (0, d\<lparr>pending := Some (page, reg, width)\<rparr>) else (- 22, d))"

definition debug_get_reg :: "debug_port \<Rightarrow> (int \<times> u8 \<times> u64) \<times> debug_port" where
  "debug_get_reg d =
     (case pending d of
        None \<Rightarrow> ((- 22, 0, 0), d)
      | Some (page, reg, width) \<Rightarrow> ((0, width, registers d page reg), d))"

definition debug_set_reg :: "debug_port \<Rightarrow> u8 \<Rightarrow> u8 \<Rightarrow> u8 \<Rightarrow> u64 \<Rightarrow> int \<times> debug_port" where
  "debug_set_reg d page reg width val =
     (if valid_width width then (0, d\<lparr>registers := (registers d)(page := (registers d page)(reg := val))\<rparr>)
      else (- 22, d))"

definition debug_ops :: "debug_port dsa_switch_ops" where
  "debug_ops =
     \<lparr>change_tag_protocol = None, port_get_pvlan = None, port_change_pvlan = None,
      switch_setup_get_reg = Some debug_setup_get_reg,
      switch_get_reg = Some debug_get_reg,
      switch_set_reg = Some debug_set_reg,
      get_strings = None, get_sset_count = None\<rparr>"

subsection \<open>The references a switch tree holds\<close>

text \<open>
  The switch tree holds exactly one reference, on the provider of its active protocol:
  every provider's count is what the other users hold (\<open>others\<close>), plus one for the
  provider of \<open>cpu_dp->tag_ops\<close> and nothing for any other.
\<close>

definition tree_holds_one :: "(string \<Rightarrow> int) \<Rightarrow> 'd kernel \<Rightarrow> bool" where
  "tree_holds_one others k \<longleftrightarrow>
     module_refs k = (\<lambda>m. others m + (if m = owner (tag_ops (dsa_ptr (netdev k))) then 1 else 0))"

section \<open>Configurations for the scenarios\<close>

text \<open>
  A switch driver without any of the optional operations, two registered taggers, a
  master without ethtool operations of its own, and ports, master devices and kernel
  states built from them.
\<close>

definition no_ops :: "unit dsa_switch_ops" where
  "no_ops =
     \<lparr>change_tag_protocol = None, port_get_pvlan = None, port_change_pvlan = None,
      switch_setup_get_reg = None, switch_get_reg = None, switch_set_reg = None,
      get_strings = None, get_sset_count = None\<rparr>"

definition tag_brcm :: dsa_device_ops where
  "tag_brcm = \<lparr>name = ''brcm'', proto = 1, promisc_on_master = False, owner = ''tag_brcm''\<rparr>"

definition tag_edsa :: dsa_device_ops where
  "tag_edsa = \<lparr>name = ''edsa'', proto = 4, promisc_on_master = False, owner = ''tag_dsa''\<rparr>"

definition no_ethtool_ops :: ethtool_ops where
  "no_ethtool_ops =
     \<lparr>eth_get_sset_count = None, eth_get_strings = None, eth_get_ethtool_phy_stats = False\<rparr>"

definition example_port :: "int \<Rightarrow> dsa_port_type \<Rightarrow> bool \<Rightarrow> unit dsa_port" where
  "example_port i t ts =
     \<lparr>index = i, type = t, ds_ops = no_ops, tag_ops = tag_brcm,
      orig_ethtool_ops = no_ethtool_ops, supports_hwtstamp = (\<lambda>_. ts)\<rparr>"

definition example_dev :: "bool \<Rightarrow> unit net_device" where
  "example_dev ts =
     \<lparr>dsa_ptr = example_port 8 DSA_PORT_TYPE_CPU False,
      ports = [example_port 0 DSA_PORT_TYPE_USER False, example_port 3 DSA_PORT_TYPE_USER ts,
               example_port 8 DSA_PORT_TYPE_CPU False],
      phydev = None,
      ndo_eth_ioctl = Some (\<lambda>ifr cmd. Inr 0)\<rparr>"

definition example_kernel :: "unit dsa_switch_ops \<Rightarrow> unit dsa_port list \<Rightarrow> unit kernel" where
  "example_kernel ops ps =
     \<lparr>netdev =
        \<lparr>dsa_ptr = (example_port 8 DSA_PORT_TYPE_CPU False)\<lparr>ds_ops := ops\<rparr>,
         ports = ps, phydev = None, ndo_eth_ioctl = None\<rparr>,
      ds_priv = (),
      tag_drivers = [tag_brcm, tag_edsa],
      module_live = (\<lambda>_. True),
      module_refs = (\<lambda>m. if m = ''tag_brcm'' then 1 else 0),
      clock_short = False,
      calls = []\<rparr>"

text \<open>A \<open>change_tag_protocol\<close> that always fails, with \<open>-EOPNOTSUPP\<close>.\<close>

definition failing_change :: "unit \<Rightarrow> int \<Rightarrow> int \<Rightarrow> int \<times> unit" where
  "failing_change d port p = (- 95, d)"

text \<open>A driver with the two port VLAN operations, and a tree with the used ports 0, 3 and 8.\<close>

definition pvlan_ops :: "unit dsa_switch_ops" where
  "pvlan_ops = no_ops\<lparr>port_get_pvlan := Some (\<lambda>d p. 0), port_change_pvlan := Some (\<lambda>d p v. d)\<rparr>"

definition pvlan_ports :: "unit dsa_switch_ops \<Rightarrow> unit dsa_port list" where
  "pvlan_ports ops =
     [(example_port 0 DSA_PORT_TYPE_USER False)\<lparr>ds_ops := ops\<rparr>,
      (example_port 3 DSA_PORT_TYPE_USER False)\<lparr>ds_ops := ops\<rparr>,
      (example_port 8 DSA_PORT_TYPE_CPU False)\<lparr>ds_ops := ops\<rparr>]"

text \<open>
  A kernel state over the driver with the debug register port, every register of which
  holds the value 5.
\<close>

definition debug_kernel :: "debug_port kernel" where
  "debug_kernel =
     \<lparr>netdev =
        \<lparr>dsa_ptr =
           \<lparr>index = 8, type = DSA_PORT_TYPE_CPU, ds_ops = debug_ops, tag_ops = tag_brcm,
            orig_ethtool_ops = no_ethtool_ops, supports_hwtstamp = (\<lambda>_. False)\<rparr>,
         ports = [], phydev = None, ndo_eth_ioctl = None\<rparr>,
      ds_priv = \<lparr>pending = None, registers = (\<lambda>page reg. 5)\<rparr>,
      tag_drivers = [tag_brcm, tag_edsa],
      module_live = (\<lambda>_. True),
      module_refs = (\<lambda>m. if m = ''tag_brcm'' then 1 else 0),
      clock_short = False,
      calls = []\<rparr>"

text \<open>
  A master with one string of its own and a switch driver with two strings for its CPU
  port 8; \<open>gstring\<close> pads a name with NULs to \<open>ETH_GSTRING_LEN\<close> bytes.
\<close>

definition gstring :: "string \<Rightarrow> string" where
  "gstring s = s @ replicate (ETH_GSTRING_LEN - length s) (CHR 0x00)"

definition strings_ops :: "unit dsa_switch_ops" where
  "strings_ops =
     \<lparr>change_tag_protocol = None, port_get_pvlan = None, port_change_pvlan = None,
      switch_setup_get_reg = None, switch_get_reg = None, switch_set_reg = None,
      get_strings = Some (\<lambda>d port sset. gstring ''rx_packets'' @ gstring ''tx_packets''),
      get_sset_count = Some (\<lambda>d port sset. 2)\<rparr>"

definition strings_dev :: "unit net_device" where
  "strings_dev =
     \<lparr>dsa_ptr =
        \<lparr>index = 8, type = DSA_PORT_TYPE_CPU, ds_ops = strings_ops,
         tag_ops = \<lparr>name = ''brcm'', proto = 1, promisc_on_master = False, owner = ''tag_brcm''\<rparr>,
         orig_ethtool_ops =
           \<lparr>eth_get_sset_count = Some (\<lambda>sset. 1),
            eth_get_strings = Some (\<lambda>sset. gstring ''m_rx''),
            eth_get_ethtool_phy_stats = False\<rparr>,
         supports_hwtstamp = (\<lambda>_. False)\<rparr>,
      ports = [], phydev = None, ndo_eth_ioctl = None\<rparr>"

section \<open>Properties of the sensor driver\<close>

subsection \<open>The conversions on machine integers\<close>

lemma top3_ucast: "drop_bit 5 ((ucast (f::u8) :: u32) AND 0xE0) = ucast (drop_bit 5 f)"
proof -
  have m: "(0xE0 :: u32) = push_bit 5 (mask 3)" by (simp add: mask_eq_exp_minus_1)
  show ?thesis
    by (rule bit_word_eqI) (auto simp add: bit_simps m dest: bit_imp_le_length)
qed

lemma sint_word_of_int_32:
  "- 2147483648 \<le> k \<Longrightarrow> k < 2147483648 \<Longrightarrow> sint (word_of_int k :: u32) = k"
  by (simp add: sint_sbintrunc' signed_take_bit_int_eq_self)

lemma temp_from_reg_bytes:
  fixes raw f :: u8
  shows "sint (temp_from_reg (ucast raw) (ucast f)) = (uint raw - 64) * 1000 + (uint f div 32) * 125"
proof -
  define q where "q = uint f div 32"
  define k where "k = (uint raw - 64) * 1000 + q * 125"
  have r: "uint raw < 256" "0 \<le> uint raw" using uint_bounded[of raw] by simp_all
  have f: "uint f < 256" using uint_bounded[of f] by simp
  have q: "0 \<le> q" "q \<le> 7"
    using f unfolding q_def by (simp_all add: pos_imp_zdiv_nonneg_iff)
  have d: "uint (drop_bit 5 f) = q"
    unfolding q_def by (simp add: uint_div_distrib drop_bit_eq_div)
  have w: "temp_from_reg (ucast raw) (ucast f) = (word_of_int k :: u32)"
    unfolding temp_from_reg_def top3_ucast k_def
    by (simp add: d [symmetric])
  have lo: "- 2147483648 \<le> k"
    using r q unfolding k_def by simp
  have hi: "k < 2147483648"
    using r q unfolding k_def by simp
  have "sint (temp_from_reg (ucast raw) (ucast f)) = k"
    unfolding w using lo hi by (rule sint_word_of_int_32)
  then show ?thesis
    unfolding k_def q_def .
qed

lemma temp_to_reg_thousands:
  fixes V :: u32
  assumes V: "uint V = 1000 * n" and n: "0 \<le> n" "n \<le> 255"
  shows "(ucast (temp_to_reg V) :: u8) = word_of_int n"
proof -
  have "sint (word_of_int (uint V + 64) :: u32) = uint V + 64"
    using n by (intro sint_word_of_int_32) (simp_all add: V)
  then have "sint (V + 64) = uint V + 64"
    by simp
  then have s: "sint (V + 64) = 1000 * n + 64"
    by (simp only: V)
  have "(1000 * n + 64) sdiv 1000 = n"
    using n by (simp add: signed_divide_int_def sgn_if)
  then have "temp_to_reg V = (word_of_int n :: u32)"
    unfolding temp_to_reg_def c_div_def s by simp
  moreover have "take_bit 32 n = n"
    using n by (simp add: take_bit_int_eq_self)
  ultimately show ?thesis
    using n by (simp add: unsigned_of_int)
qed

lemma round_trip_offset:
  fixes V :: u32
  assumes V: "uint V = 1000 * n" and n: "0 \<le> n" "n \<le> 255"
  shows "sint (temp_from_reg (ucast (ucast (temp_to_reg V) :: u8)) 0) = sint V - 64000"
proof -
  define x where "x = (ucast (temp_to_reg V) :: u8)"
  have x: "uint x = n"
    unfolding x_def temp_to_reg_thousands [OF assms]
    using n by (simp add: uint_word_of_int take_bit_int_eq_self)
  have "sint (temp_from_reg (ucast x) (ucast (0 :: u8))) = (uint x - 64) * 1000 + (uint (0 :: u8) div 32) * 125"
    by (rule temp_from_reg_bytes)
  then have "sint (temp_from_reg (ucast x) 0) = 1000 * n - 64000"
    by (simp add: x)
  moreover have "sint V = 1000 * n"
  proof -
    have "sint (word_of_int (uint V) :: u32) = uint V"
      using n by (intro sint_word_of_int_32) (simp_all add: V)
    then have "sint V = uint V" by simp
    then show ?thesis by (simp only: V)
  qed
  ultimately show ?thesis
    unfolding x_def by simp
qed

subsection \<open>Refreshing from a register file\<close>

lemma ucast_u8_u32_u8: "(ucast (ucast (x :: u8) :: u32) :: u8) = x"
  by (simp add: ucast_up_ucast_id is_up)

lemma read_register_file:
  "i2c_smbus_read_byte_data register_file_ops reg w = (ucast (chip w reg), emit (I2c_read reg) w)"
  by (simp add: i2c_smbus_read_byte_data_def register_file_ops_def)

lemma read_temps_register_file:
  "temp (fst (read_temps register_file_ops is (d, w))) i =
     (if i \<in> set is then chip w (regs_read i) else temp d i)
   \<and> chip (snd (read_temps register_file_ops is (d, w))) = chip w"
proof (induction "is" arbitrary: d w)
  case Nil
  then show ?case by simp
next
  case (Cons a "is")
  show ?case
    by (simp add: Cons.IH read_register_file emit_def ucast_u8_u32_u8 del: regs_read.simps)
qed

lemma read_burst_register_file:
  "temp (fst (read_burst register_file_ops (d, w))) i = chip w (regs_read i)
   \<and> chip (snd (read_burst register_file_ops (d, w))) = chip w"
proof -
  have i: "i \<in> set all_temp_index"
    by (cases i) (simp_all add: all_temp_index_def)
  obtain d1 w1 where r: "read_temps register_file_ops all_temp_index (d, spi_lock w) = (d1, w1)"
    by (cases "read_temps register_file_ops all_temp_index (d, spi_lock w)")
  have c0: "chip (spi_lock w) = chip w"
    by (simp add: spi_lock_def emit_def)
  have "temp d1 i = chip w (regs_read i)" "chip w1 = chip w"
    using read_temps_register_file [of all_temp_index d "spi_lock w" i] i
    by (simp_all add: r c0)
  then show ?thesis
    by (simp add: read_burst_def r read_register_file spi_unlock_def emit_def Let_def)
qed

lemma read_bursts_register_file:
  "temp (fst (read_bursts (Suc n) register_file_ops (d, w))) i = chip w (regs_read i)
   \<and> chip (snd (read_bursts (Suc n) register_file_ops (d, w))) = chip w"
proof (induction n arbitrary: d w)
  case 0
  show ?case using read_burst_register_file [of d w i] by simp
next
  case (Suc n)
  obtain d1 w1 where r: "read_burst register_file_ops (d, w) = (d1, w1)"
    by (cases "read_burst register_file_ops (d, w)")
  have "chip w1 = chip w"
    using read_burst_register_file [of d w i] by (simp add: r)
  then show ?case
    using Suc.IH [of d1 w1] by (simp add: r)
qed

lemma update_device_register_file:
  assumes "\<not> valid d"
  shows "temp (fst (mcp9902_update_device register_file_ops j0 j1 (d, w))) i = chip w (regs_read i)"
proof -
  have n: "(20::nat) = Suc 19" by simp
  obtain d1 w1 where r: "read_bursts (Suc 19) register_file_ops (d, w) = (d1, w1)"
    by (cases "read_bursts (Suc 19) register_file_ops (d, w)")
  have "temp d1 i = chip w (regs_read i)"
    using read_bursts_register_file [of 19 d w i] by (simp only: r fst_conv)
  then show ?thesis
    using assms by (simp only: mcp9902_update_device_def n r) simp
qed

lemma update_device_fresh:
  "valid d \<Longrightarrow> mcp9902_update_device ops (last_updated d) j1 (d, w) = (d, w)"
  by (simp add: mcp9902_update_device_def time_after_def)

lemma temp_show_formula:
  "fst (temp_show ops j0 j1 idx dw) =
     (let d = fst (mcp9902_update_device ops j0 j1 dw);
          raw = uint (temp d idx);
          f = (case idx of
                 t_input1 \<Rightarrow> uint (temp d t_input1_fraction)
               | t_input2 \<Rightarrow> uint (temp d t_input2_fraction)
               | _ \<Rightarrow> 0)
      in fmt_d ((raw - 64) * 1000 + (f div 32) * 125) @ [CHR 0x0A])"
  by (cases idx) (simp_all add: temp_show_def Let_def split_beta temp_from_reg_bytes)

subsection \<open>Reading a temperature\<close>

text \<open>
  Claim C6. The text that \<open>temp_show\<close> prints is the decimal form of
  \<open>(raw - 64) * 1000 + (top three bits of f) * 125\<close>, where \<open>raw\<close> is the cached
  byte of the attribute's register after the refresh and \<open>f\<close> is the cached fraction
  byte for the two inputs and 0 for every threshold index. The top three bits of a byte
  are the byte divided by 32.
\<close>

theorem temp_show_decodes:
  "fst (temp_show ops j0 j1 idx dw) =
     (let d = fst (mcp9902_update_device ops j0 j1 dw);
          raw = uint (temp d idx);
          f = (case idx of
                 t_input1 \<Rightarrow> uint (temp d t_input1_fraction)
               | t_input2 \<Rightarrow> uint (temp d t_input2_fraction)
               | _ \<Rightarrow> 0)
      in fmt_d ((raw - 64) * 1000 + (f div 32) * 125) @ [CHR 0x0A])"
  by (rule temp_show_formula)

text \<open>
  The scenario of the specification: an empty cache, a chip whose local temperature
  register holds 89 and whose fraction register holds \<open>0x20\<close>; the reading is 25125.
\<close>

theorem temp_show_decodes_witness:
  "fst (temp_show register_file_ops 0 0 t_input1
          (\<lparr>valid = False, last_updated = 0, temp = (\<lambda>_. 0), alarms = 0\<rparr>,
           \<lparr>pm_suspended = False, trace = [],
            chip = (\<lambda>_. 0)(0x00 := 89, 0x29 := 0x20)\<rparr>)) = ''25125'' @ [CHR 0x0A]"
  using temp_show_decodes [of register_file_ops 0 0 t_input1
          "(\<lparr>valid = False, last_updated = 0, temp = (\<lambda>_. 0), alarms = 0\<rparr>,
           \<lparr>pm_suspended = False, trace = [],
            chip = (\<lambda>_. 0)(0x00 := 89, 0x29 := 0x20)\<rparr>)"]
  by (simp add: update_device_register_file fmt_d_def digit_char_def digits.simps)

subsection \<open>Releasing the shared-clock mutex\<close>

text \<open>
  Claim C5, as the code has it. \<open>spi_unlock\<close> always sleeps the fixed millisecond and
  then unlocks the mutex; the 100 to 200 microsecond sleep comes before them unless the
  device is runtime-suspended. Nothing else of the world changes.
\<close>

theorem spi_unlock_delays:
  "spi_unlock w =
     w\<lparr>trace := trace w @ (if pm_suspended w then [] else [Usleep_range 100 200])
                       @ [Msleep 1, Mutex_unlock]\<rparr>"
  by (simp add: spi_unlock_def emit_def)

theorem spi_unlock_delays_witness:
  "trace (spi_unlock \<lparr>pm_suspended = False, trace = [Mutex_lock], chip = ()\<rparr>)
     = [Mutex_lock, Usleep_range 100 200, Msleep 1, Mutex_unlock]
   \<and> trace (spi_unlock \<lparr>pm_suspended = True, trace = [Mutex_lock], chip = ()\<rparr>)
     = [Mutex_lock, Msleep 1, Mutex_unlock]"
  using spi_unlock_delays [of "\<lparr>pm_suspended = False, trace = [Mutex_lock], chip = ()\<rparr>"]
    spi_unlock_delays [of "\<lparr>pm_suspended = True, trace = [Mutex_lock], chip = ()\<rparr>"]
  by simp

text \<open>
  Claim C5 as stated fails: with the device suspended the release still sleeps for one
  millisecond.
\<close>

theorem spi_unlock_suspended_counterexample:
  "pm_suspended \<lparr>pm_suspended = True, trace = [], chip = ()\<rparr>
   \<and> Msleep 1 \<in> set (trace (spi_unlock \<lparr>pm_suspended = True, trace = [], chip = ()\<rparr>))"
  by (simp add: spi_unlock_def emit_def)

subsection \<open>Writing a threshold and reading it back\<close>

text \<open>
  Claim C1 at the value 25000: the threshold is encoded as \<open>(25000 + 64) / 1000 = 25\<close>,
  stored in the byte of the cache, and decoded as \<open>(25 - 64) * 1000 = - 39000\<close>, not
  as 25000.
\<close>

theorem threshold_round_trip_25000:
  "sint (temp_from_reg (ucast (ucast (temp_to_reg 25000) :: u8)) 0) = - 39000"
  by (simp add: temp_from_reg_def temp_to_reg_def c_div_def signed_divide_int_def)

text \<open>
  The same through the two handlers: a write of 25000 to \<open>temp1_min\<close> followed by a
  read while the cache is fresh prints \<open>-39000\<close>.
\<close>

lemma temp_store_then_show_25000:
  assumes "kstrtol buf = Inr 25000" "valid d"
  shows "fst (temp_show ops (last_updated d) j1 t_low1
                (snd (temp_store ops kstrtol t_low1 buf count (d, w))))
         = ''-39000'' @ [CHR 0x0A]"
proof -
  obtain d1 w1 where s: "snd (temp_store ops kstrtol t_low1 buf count (d, w)) = (d1, w1)"
    by (cases "snd (temp_store ops kstrtol t_low1 buf count (d, w))")
  have d1: "valid d1" "last_updated d1 = last_updated d" "temp d1 t_low1 = 25"
    using s assms by (auto simp add: temp_store_def Let_def temp_to_reg_def c_div_def signed_divide_int_def)
  have "mcp9902_update_device ops (last_updated d) j1 (d1, w1) = (d1, w1)"
    using update_device_fresh [of d1 ops j1 w1] d1 by simp
  then show ?thesis
    unfolding s temp_show_formula
    by (simp add: d1 fmt_d_def digit_char_def digits.simps)
qed

section \<open>Properties of the master device\<close>

subsection \<open>The ioctl intercept\<close>

lemma any_port_supports_hwtstamp_iff:
  "any_port_supports_hwtstamp ps ifr \<longleftrightarrow> (\<exists>dp \<in> set ps. supports_hwtstamp dp ifr)"
  by (induction ps) auto

text \<open>
  Claim C8. A request to get or set the hardware timestamping configuration is answered
  with \<open>EBUSY\<close> when some port of the switch tree supports hardware timestamping for
  that request. Every other request, and a timestamping request when no port supports it,
  goes to the master's own handler and returns what that returns, or \<open>EOPNOTSUPP\<close>
  when the master has no handler.
\<close>

theorem dsa_master_ioctl_intercept:
  "dsa_master_ioctl dev ifr cmd =
     (if (cmd = SIOCGHWTSTAMP \<or> cmd = SIOCSHWTSTAMP) \<and> (\<exists>dp \<in> set (ports dev). supports_hwtstamp dp ifr)
      then Inl EBUSY
      else (case ndo_eth_ioctl dev of None \<Rightarrow> Inl EOPNOTSUPP | Some ioctl \<Rightarrow> ioctl ifr cmd))"
  by (simp add: dsa_master_ioctl_def any_port_supports_hwtstamp_iff)

theorem dsa_master_ioctl_intercept_witness:
  "dsa_master_ioctl (example_dev True) \<lparr>ifr_name = ''eth0'', ifr_data = 0\<rparr> SIOCSHWTSTAMP = Inl EBUSY
   \<and> dsa_master_ioctl (example_dev False) \<lparr>ifr_name = ''eth0'', ifr_data = 0\<rparr> SIOCSHWTSTAMP = Inr 0
   \<and> dsa_master_ioctl (example_dev True) \<lparr>ifr_name = ''eth0'', ifr_data = 0\<rparr> 0x8947 = Inr 0
   \<and> dsa_master_ioctl ((example_dev False)\<lparr>ndo_eth_ioctl := None\<rparr>) \<lparr>ifr_name = ''eth0'', ifr_data = 0\<rparr> SIOCGHWTSTAMP
       = Inl EOPNOTSUPP"
  using dsa_master_ioctl_intercept [of "example_dev True" "\<lparr>ifr_name = ''eth0'', ifr_data = 0\<rparr>" SIOCSHWTSTAMP]
    dsa_master_ioctl_intercept [of "example_dev False" "\<lparr>ifr_name = ''eth0'', ifr_data = 0\<rparr>" SIOCSHWTSTAMP]
    dsa_master_ioctl_intercept [of "example_dev True" "\<lparr>ifr_name = ''eth0'', ifr_data = 0\<rparr>" "0x8947"]
    dsa_master_ioctl_intercept [of "(example_dev False)\<lparr>ndo_eth_ioctl := None\<rparr>" "\<lparr>ifr_name = ''eth0'', ifr_data = 0\<rparr>" SIOCGHWTSTAMP]
  by (simp add: example_dev_def example_port_def SIOCSHWTSTAMP_def SIOCGHWTSTAMP_def)

subsection \<open>The tagging protocol of the CPU slot\<close>

lemma find_tagger_refs:
  "dsa_find_tagger_by_name b k = (Inr t, k1) \<Longrightarrow>
     k1 = k\<lparr>module_refs := (module_refs k)(owner t := module_refs k (owner t) + 1)\<rparr>"
  by (auto simp add: dsa_find_tagger_by_name_def split: option.splits if_splits)

text \<open>
  Claim C10. When the lookup of the written name gives a tagger and the switch driver has
  a \<open>change_tag_protocol\<close> operation, \<open>tagging_imp_store\<close> returns the byte count
  whatever that operation returns, calls it for port 8 with the tagger's protocol, and
  leaves the reference counts as the lookup left them: the reference that the lookup took
  is not given back.
\<close>

theorem tagging_imp_store_keeps_reference:
  assumes "dsa_find_tagger_by_name (cstr buf) k = (Inr t, k1)"
    and "change_tag_protocol (ds_ops (dsa_ptr (netdev k1))) = Some change"
  shows "fst (tagging_imp_store buf count k) = Inr count
         \<and> module_refs (snd (tagging_imp_store buf count k)) = module_refs k1
         \<and> ds_priv (snd (tagging_imp_store buf count k)) = snd (change (ds_priv k1) 8 (proto t))
         \<and> calls (snd (tagging_imp_store buf count k)) = calls k1 @ [Change_tag_protocol 8 (proto t)]"
  using assms by (simp add: tagging_imp_store_def log_call_def split_beta)

theorem tagging_imp_store_keeps_reference_witness:
  "fst (tagging_imp_store ''edsa'' 4
          (example_kernel (no_ops\<lparr>change_tag_protocol := Some failing_change\<rparr>) [])) = Inr 4
   \<and> module_refs (snd (tagging_imp_store ''edsa'' 4
          (example_kernel (no_ops\<lparr>change_tag_protocol := Some failing_change\<rparr>) []))) ''tag_dsa'' = 1
   \<and> calls (snd (tagging_imp_store ''edsa'' 4
          (example_kernel (no_ops\<lparr>change_tag_protocol := Some failing_change\<rparr>) [])))
       = [Change_tag_protocol 8 4]"
proof -
  let ?k = "example_kernel (no_ops\<lparr>change_tag_protocol := Some failing_change\<rparr>) []"
  let ?k1 = "?k\<lparr>module_refs := (module_refs ?k)(''tag_dsa'' := 1)\<rparr>"
  have f: "dsa_find_tagger_by_name (cstr ''edsa'') ?k = (Inr tag_edsa, ?k1)"
    by (simp add: dsa_find_tagger_by_name_def cstr_def example_kernel_def tag_brcm_def tag_edsa_def)
  have c: "change_tag_protocol (ds_ops (dsa_ptr (netdev ?k1))) = Some failing_change"
    by (simp add: example_kernel_def)
  show ?thesis
    using tagging_imp_store_keeps_reference [OF f c, of 4]
    by (simp add: example_kernel_def tag_edsa_def)
qed

subsection \<open>Changing the tagging protocol of the tree\<close>

lemma find_tagger_error:
  "dsa_find_tagger_by_name b k = (Inl e, k1) \<Longrightarrow> k1 = k"
  by (auto simp add: dsa_find_tagger_by_name_def split: option.splits if_splits)

lemma put_after_find:
  "dsa_find_tagger_by_name b k = (Inr t, k1) \<Longrightarrow> dsa_tag_driver_put t k1 = k"
  by (auto simp add: dsa_find_tagger_by_name_def dsa_tag_driver_put_def split: option.splits if_splits)

lemma tagging_cpu_store_paths:
  "tagging_cpu_store apply buf count k =
     (case dsa_find_tagger_by_name (cstr buf) k of
        (Inl e, k1) \<Rightarrow> (Inl e, k)
      | (Inr new_tag_ops, k1) \<Rightarrow>
          if new_tag_ops = tag_ops (dsa_ptr (netdev k)) then (Inr count, k)
          else (case apply new_tag_ops (tag_ops (dsa_ptr (netdev k))) of
                  Some err \<Rightarrow> (Inl err, k)
                | None \<Rightarrow>
                    (Inr count,
                     dsa_tag_driver_put (tag_ops (dsa_ptr (netdev k)))
                       (k1\<lparr>netdev := (netdev k1)\<lparr>dsa_ptr := (dsa_ptr (netdev k1))\<lparr>tag_ops := new_tag_ops\<rparr>\<rparr>\<rparr>))))"
proof (cases "dsa_find_tagger_by_name (cstr buf) k")
  case (Pair r k1)
  show ?thesis
  proof (cases r)
    case (Inl e)
    with Pair show ?thesis
      by (simp add: tagging_cpu_store_def find_tagger_error)
  next
    case (Inr t)
    with Pair have f: "dsa_find_tagger_by_name (cstr buf) k = (Inr t, k1)" by simp
    show ?thesis
      using put_after_find [OF f]
      by (auto simp add: tagging_cpu_store_def f dsa_tree_change_tag_proto_def
          split: option.splits)
  qed
qed

text \<open>
  Claim C2. If the tree holds exactly one reference before \<open>tagging_cpu_store\<close>, on
  the provider of the active protocol, it does so afterwards, on every path; whenever the
  write fails the whole state is as before the call: the active protocol and every
  reference count are unchanged, the reference taken for the new protocol having been
  released; and a tree-wide change that fails for a protocol other than the active one
  makes the write fail with the error of the change.
\<close>

theorem tagging_cpu_store_atomic:
  assumes "tree_holds_one others k"
  shows "tree_holds_one others (snd (tagging_cpu_store apply buf count k))
         \<and> (\<forall>e. fst (tagging_cpu_store apply buf count k) = Inl e
                \<longrightarrow> snd (tagging_cpu_store apply buf count k) = k)
         \<and> (\<forall>new_tag_ops k1 err.
                dsa_find_tagger_by_name (cstr buf) k = (Inr new_tag_ops, k1)
                \<and> new_tag_ops \<noteq> tag_ops (dsa_ptr (netdev k))
                \<and> apply new_tag_ops (tag_ops (dsa_ptr (netdev k))) = Some err
                \<longrightarrow> tagging_cpu_store apply buf count k = (Inl err, k))"
proof (cases "dsa_find_tagger_by_name (cstr buf) k")
  case (Pair r k1)
  show ?thesis
  proof (cases r)
    case (Inl e)
    with Pair assms show ?thesis
      by (simp add: tagging_cpu_store_paths)
  next
    case (Inr t)
    with Pair have f: "dsa_find_tagger_by_name (cstr buf) k = (Inr t, k1)" by simp
    have k1: "k1 = k\<lparr>module_refs := (module_refs k)(owner t := module_refs k (owner t) + 1)\<rparr>"
      using f by (rule find_tagger_refs)
    show ?thesis
      using assms
      by (auto simp add: tagging_cpu_store_paths f k1 tree_holds_one_def dsa_tag_driver_put_def
          fun_eq_iff split: option.splits)
  qed
qed

theorem tagging_cpu_store_atomic_witness:
  "tree_holds_one (\<lambda>_. 0) (example_kernel no_ops [])
   \<and> snd (tagging_cpu_store (\<lambda>_ _. Some EBUSY) ''edsa'' 4 (example_kernel no_ops []))
       = example_kernel no_ops []
   \<and> tree_holds_one (\<lambda>_. 0)
        (snd (tagging_cpu_store (\<lambda>_ _. None) ''edsa'' 4 (example_kernel no_ops [])))
   \<and> tag_ops (dsa_ptr (netdev
        (snd (tagging_cpu_store (\<lambda>_ _. None) ''edsa'' 4 (example_kernel no_ops []))))) = tag_edsa"
proof -
  have h: "tree_holds_one (\<lambda>_. 0) (example_kernel no_ops [])"
    by (simp add: tree_holds_one_def example_kernel_def example_port_def tag_brcm_def fun_eq_iff)
  have f: "dsa_find_tagger_by_name (cstr ''edsa'') (example_kernel no_ops [])
         = (Inr tag_edsa,
            (example_kernel no_ops [])\<lparr>module_refs :=
               (module_refs (example_kernel no_ops []))(''tag_dsa'' := 1)\<rparr>)"
    by (simp add: dsa_find_tagger_by_name_def cstr_def example_kernel_def tag_brcm_def tag_edsa_def)
  have e: "fst (tagging_cpu_store (\<lambda>_ _. Some EBUSY) ''edsa'' 4 (example_kernel no_ops [])) = Inl EBUSY"
    by (simp add: tagging_cpu_store_paths f)
       (simp add: example_kernel_def example_port_def tag_brcm_def tag_edsa_def)
  have t: "tag_ops (dsa_ptr (netdev
        (snd (tagging_cpu_store (\<lambda>_ _. None) ''edsa'' 4 (example_kernel no_ops []))))) = tag_edsa"
    by (simp add: tagging_cpu_store_paths f)
       (simp add: example_kernel_def example_port_def tag_brcm_def tag_edsa_def dsa_tag_driver_put_def)
  show ?thesis
    using tagging_cpu_store_atomic [OF h, of "\<lambda>_ _. Some EBUSY" "''edsa''" 4]
      tagging_cpu_store_atomic [OF h, of "\<lambda>_ _. None" "''edsa''" 4] h e t
    by simp
qed

subsection \<open>Scanning\<close>

lemmas scan_defs =
  sscanf_def cstr_def skip_spaces_def isspace_def isdigit_def isxdigit_def digit_val_def
  simple_strntoull_def simple_strntoll_def Let_def

subsection \<open>Port VLAN membership\<close>

lemma pvlan_store_ports_found:
  assumes "find (\<lambda>dp. index dp = idx \<and> type dp \<noteq> DSA_PORT_TYPE_UNUSED) ps = Some dp"
  shows "pvlan_store_ports ps idx val count k =
     (case port_get_pvlan (ds_ops dp) of
        None \<Rightarrow> (Inl EOPNOTSUPP, k)
      | Some _ \<Rightarrow>
          (case port_change_pvlan (ds_ops dp) of
             None \<Rightarrow> (Inl Oops, k)
           | Some change \<Rightarrow>
               (Inr count,
                k\<lparr>ds_priv := change (ds_priv k) idx val,
                  calls := calls k @ [Port_change_pvlan idx val]\<rparr>)))"
  using assms
  by (induction ps) (auto simp add: log_call_def split: if_splits option.splits)

lemma pvlan_store_ports_missing:
  assumes "find (\<lambda>dp. index dp = idx \<and> type dp \<noteq> DSA_PORT_TYPE_UNUSED) ps = None"
  shows "pvlan_store_ports ps idx val count k = (Inl EINVAL, k)"
  using assms
  by (induction ps) (auto split: if_splits)

text \<open>
  Claim C9, as the code has it. A write of \<open>3:0a5\<close> on a tree whose first used port
  with index 3 belongs to a switch driver with both port VLAN operations calls the setter
  with index 3 and value \<open>0x0A5\<close> and returns the byte count; when that driver has
  neither operation the write returns \<open>EOPNOTSUPP\<close> and nothing is called. A write of
  \<open>99:0a5\<close> on a tree without a port of index 99 returns \<open>EINVAL\<close> and nothing is
  called.
\<close>

theorem pvlan_store_scenarios:
  "(\<forall>dp get change.
      find (\<lambda>dp. index dp = 3 \<and> type dp \<noteq> DSA_PORT_TYPE_UNUSED) (ports (netdev k)) = Some dp
      \<and> port_get_pvlan (ds_ops dp) = Some get \<and> port_change_pvlan (ds_ops dp) = Some change
      \<longrightarrow> pvlan_store ''3:0a5'' count k =
            (Inr count,
             k\<lparr>ds_priv := change (ds_priv k) 3 0x0A5,
               calls := calls k @ [Port_change_pvlan 3 0x0A5]\<rparr>))
   \<and> (\<forall>dp.
      find (\<lambda>dp. index dp = 3 \<and> type dp \<noteq> DSA_PORT_TYPE_UNUSED) (ports (netdev k)) = Some dp
      \<and> port_get_pvlan (ds_ops dp) = None \<and> port_change_pvlan (ds_ops dp) = None
      \<longrightarrow> pvlan_store ''3:0a5'' count k = (Inl EOPNOTSUPP, k))
   \<and> ((\<forall>dp \<in> set (ports (netdev k)). index dp \<noteq> 99)
      \<longrightarrow> pvlan_store ''99:0a5'' count k = (Inl EINVAL, k))"
proof -
  have s3: "sscanf ''3:0a5'' [conv_d, Lit (CHR '':''), conv_x] = [3, 0xa5]"
    by (simp add: scan_defs)
  have s99: "sscanf ''99:0a5'' [conv_d, Lit (CHR '':''), conv_x] = [99, 0xa5]"
    by (simp add: scan_defs)
  have m: "(\<forall>dp \<in> set ps. index dp \<noteq> 99) \<Longrightarrow>
             find (\<lambda>dp. index dp = 99 \<and> type dp \<noteq> DSA_PORT_TYPE_UNUSED) ps = None" for ps :: "'a dsa_port list"
    by (induction ps) auto
  show ?thesis
    by (auto simp add: pvlan_store_def s3 s99 pvlan_store_ports_found pvlan_store_ports_missing m)
qed

theorem pvlan_store_scenarios_witness:
  "fst (pvlan_store ''3:0a5'' 5 (example_kernel pvlan_ops (pvlan_ports pvlan_ops))) = Inr 5
   \<and> calls (snd (pvlan_store ''3:0a5'' 5 (example_kernel pvlan_ops (pvlan_ports pvlan_ops))))
       = [Port_change_pvlan 3 0x0A5]
   \<and> pvlan_store ''3:0a5'' 5 (example_kernel no_ops (pvlan_ports no_ops))
       = (Inl EOPNOTSUPP, example_kernel no_ops (pvlan_ports no_ops))
   \<and> pvlan_store ''99:0a5'' 6 (example_kernel pvlan_ops (pvlan_ports pvlan_ops))
       = (Inl EINVAL, example_kernel pvlan_ops (pvlan_ports pvlan_ops))"
  using pvlan_store_scenarios [of "example_kernel pvlan_ops (pvlan_ports pvlan_ops)" 5]
    pvlan_store_scenarios [of "example_kernel no_ops (pvlan_ports no_ops)" 5]
    pvlan_store_scenarios [of "example_kernel pvlan_ops (pvlan_ports pvlan_ops)" 6]
  by (simp add: example_kernel_def pvlan_ports_def example_port_def pvlan_ops_def no_ops_def)

text \<open>
  Claim C9 as stated fails on a tree whose driver has no port VLAN operations: the used
  port 3 is there, and the write returns \<open>EOPNOTSUPP\<close> without calling a setter.
\<close>

theorem pvlan_store_unsupported_counterexample:
  "index (pvlan_ports no_ops ! 1) = 3 \<and> type (pvlan_ports no_ops ! 1) \<noteq> DSA_PORT_TYPE_UNUSED
   \<and> fst (pvlan_store ''3:0a5'' 5 (example_kernel no_ops (pvlan_ports no_ops))) = Inl EOPNOTSUPP
   \<and> calls (snd (pvlan_store ''3:0a5'' 5 (example_kernel no_ops (pvlan_ports no_ops)))) = []"
  by (simp add: pvlan_store_def scan_defs example_kernel_def pvlan_ports_def example_port_def no_ops_def)

subsection \<open>Malformed writes\<close>

lemma pvlan_store_ports_not_einval:
  assumes "find (\<lambda>dp. index dp = idx \<and> type dp \<noteq> DSA_PORT_TYPE_UNUSED) ps = Some dp"
  shows "fst (pvlan_store_ports ps idx val count k) \<noteq> Inl EINVAL"
  by (simp add: pvlan_store_ports_found [OF assms] split: option.splits)

lemma rdreg_store_fields:
  assumes "sscanf buf [conv_x, Lit (CHR '':''), conv_x, Lit (CHR '':''), conv_x] = [pg, rg, sz]"
    and "switch_setup_get_reg (ds_ops (dsa_ptr (netdev k))) = Some setup_get_reg"
  shows "rdreg_store buf count k =
           (if fst (setup_get_reg (ds_priv k) (ucast pg) (ucast rg) (ucast sz)) = 0
            then Inr count else Inl EIO,
            k\<lparr>ds_priv := snd (setup_get_reg (ds_priv k) (ucast pg) (ucast rg) (ucast sz)),
              calls := calls k @ [Switch_setup_get_reg (ucast pg) (ucast rg) (ucast sz)]\<rparr>)"
  using assms by (simp add: rdreg_store_def log_call_def split_beta Let_def)

lemma wrreg_store_fields:
  assumes "sscanf buf [conv_x, Lit (CHR '':''), conv_x, Lit (CHR '':''), conv_x,
                          Lit (CHR '':''), conv_x] = [pg, rg, sz, v]"
    and "switch_set_reg (ds_ops (dsa_ptr (netdev k))) = Some set_reg"
  shows "wrreg_store buf count k =
           (if fst (set_reg (ds_priv k) (ucast pg) (ucast rg) (ucast sz) v) = 0
            then Inr count else Inl EIO,
            k\<lparr>ds_priv := snd (set_reg (ds_priv k) (ucast pg) (ucast rg) (ucast sz) v),
              calls := calls k @ [Switch_set_reg (ucast pg) (ucast rg) (ucast sz) v]\<rparr>)"
  using assms by (simp add: wrreg_store_def log_call_def split_beta Let_def)

text \<open>
  Claim C3, as the code has it. The handlers count the values that the scan converts, not
  the tokens of the text, and they do not look at the width.

  A write whose text converts to fewer values than the format of its attribute has fields
  (two for \<open>pvlan\<close>, three for \<open>rdreg\<close>, four for \<open>wrreg\<close>), and a write to
  \<open>spi_mutex\<close> whose length is not 2, fails with \<open>EINVAL\<close> and leaves the whole
  state as it was.

  A write to \<open>rdreg\<close> or \<open>wrreg\<close> whose text converts to all the fields, whatever the
  width and whatever follows the last field, is handed to the switch driver when the
  driver has the operation: \<open>switch_setup_get_reg\<close> or \<open>switch_set_reg\<close> is called
  once with the converted page, register, width (and value), the driver's new state is
  kept, and the write returns the byte count when the driver returns zero and \<open>EIO\<close>
  when it returns anything else.

  A write to \<open>pvlan\<close> whose text converts to both fields fails with \<open>EINVAL\<close>, the
  state unchanged, when the tree has no used port of the converted index, and does not
  fail with \<open>EINVAL\<close> when it has one.
\<close>

theorem malformed_writes_rejected:
  "(length (sscanf buf [conv_d, Lit (CHR '':''), conv_x]) \<noteq> 2
      \<longrightarrow> pvlan_store buf count k = (Inl EINVAL, k))
   \<and> (length (sscanf buf [conv_x, Lit (CHR '':''), conv_x, Lit (CHR '':''), conv_x]) \<noteq> 3
      \<longrightarrow> rdreg_store buf count k = (Inl EINVAL, k))
   \<and> (length (sscanf buf [conv_x, Lit (CHR '':''), conv_x, Lit (CHR '':''), conv_x,
                          Lit (CHR '':''), conv_x]) \<noteq> 4
      \<longrightarrow> wrreg_store buf count k = (Inl EINVAL, k))
   \<and> (count \<noteq> 2 \<longrightarrow> spi_mutex_store buf count k = (Inl EINVAL, k))
   \<and> (\<forall>pg rg sz setup_get_reg.
        sscanf buf [conv_x, Lit (CHR '':''), conv_x, Lit (CHR '':''), conv_x] = [pg, rg, sz]
        \<and> switch_setup_get_reg (ds_ops (dsa_ptr (netdev k))) = Some setup_get_reg
      \<longrightarrow> rdreg_store buf count k =
            (if fst (setup_get_reg (ds_priv k) (ucast pg) (ucast rg) (ucast sz)) = 0
             then Inr count else Inl EIO,
             k\<lparr>ds_priv := snd (setup_get_reg (ds_priv k) (ucast pg) (ucast rg) (ucast sz)),
               calls := calls k @ [Switch_setup_get_reg (ucast pg) (ucast rg) (ucast sz)]\<rparr>))
   \<and> (\<forall>pg rg sz v set_reg.
        sscanf buf [conv_x, Lit (CHR '':''), conv_x, Lit (CHR '':''), conv_x,
                          Lit (CHR '':''), conv_x] = [pg, rg, sz, v]
        \<and> switch_set_reg (ds_ops (dsa_ptr (netdev k))) = Some set_reg
      \<longrightarrow> wrreg_store buf count k =
            (if fst (set_reg (ds_priv k) (ucast pg) (ucast rg) (ucast sz) v) = 0
             then Inr count else Inl EIO,
             k\<lparr>ds_priv := snd (set_reg (ds_priv k) (ucast pg) (ucast rg) (ucast sz) v),
               calls := calls k @ [Switch_set_reg (ucast pg) (ucast rg) (ucast sz) v]\<rparr>))
   \<and> (\<forall>idx val.
        sscanf buf [conv_d, Lit (CHR '':''), conv_x] = [idx, val]
        \<and> find (\<lambda>dp. index dp = sint (ucast idx :: u32) \<and> type dp \<noteq> DSA_PORT_TYPE_UNUSED)
              (ports (netdev k)) = None
      \<longrightarrow> pvlan_store buf count k = (Inl EINVAL, k))
   \<and> (\<forall>idx val dp.
        sscanf buf [conv_d, Lit (CHR '':''), conv_x] = [idx, val]
        \<and> find (\<lambda>dp. index dp = sint (ucast idx :: u32) \<and> type dp \<noteq> DSA_PORT_TYPE_UNUSED)
              (ports (netdev k)) = Some dp
      \<longrightarrow> fst (pvlan_store buf count k) \<noteq> Inl EINVAL)"
proof -
  have l2: "length xs \<noteq> 2 \<Longrightarrow> (case xs of [a, b] \<Rightarrow> f a b | _ \<Rightarrow> g) = g"
    for xs :: "u64 list" and f and g :: "(error + nat) \<times> 'a kernel"
    by (auto split: list.splits)
  have l3: "length xs \<noteq> 3 \<Longrightarrow> (case xs of [a, b, c] \<Rightarrow> f a b c | _ \<Rightarrow> g) = g"
    for xs :: "u64 list" and f and g :: "(error + nat) \<times> 'a kernel"
    by (auto split: list.splits)
  have l4: "length xs \<noteq> 4 \<Longrightarrow> (case xs of [a, b, c, d] \<Rightarrow> f a b c d | _ \<Rightarrow> g) = g"
    for xs :: "u64 list" and f and g :: "(error + nat) \<times> 'a kernel"
    by (auto split: list.splits)
  have p: "length (sscanf buf [conv_d, Lit (CHR '':''), conv_x]) \<noteq> 2
      \<longrightarrow> pvlan_store buf count k = (Inl EINVAL, k)"
    unfolding pvlan_store_def by (simp add: l2)
  have r: "length (sscanf buf [conv_x, Lit (CHR '':''), conv_x, Lit (CHR '':''), conv_x]) \<noteq> 3
      \<longrightarrow> rdreg_store buf count k = (Inl EINVAL, k)"
    unfolding rdreg_store_def by (simp add: l3)
  have w: "length (sscanf buf [conv_x, Lit (CHR '':''), conv_x, Lit (CHR '':''), conv_x,
                          Lit (CHR '':''), conv_x]) \<noteq> 4
      \<longrightarrow> wrreg_store buf count k = (Inl EINVAL, k)"
    unfolding wrreg_store_def by (simp add: l4)
  have m: "count \<noteq> 2 \<longrightarrow> spi_mutex_store buf count k = (Inl EINVAL, k)"
    by (simp add: spi_mutex_store_def)
  have pn: "\<forall>idx val.
        sscanf buf [conv_d, Lit (CHR '':''), conv_x] = [idx, val]
        \<and> find (\<lambda>dp. index dp = sint (ucast idx :: u32) \<and> type dp \<noteq> DSA_PORT_TYPE_UNUSED)
              (ports (netdev k)) = None
      \<longrightarrow> pvlan_store buf count k = (Inl EINVAL, k)"
    by (simp add: pvlan_store_def pvlan_store_ports_missing)
  have pf: "\<forall>idx val dp.
        sscanf buf [conv_d, Lit (CHR '':''), conv_x] = [idx, val]
        \<and> find (\<lambda>dp. index dp = sint (ucast idx :: u32) \<and> type dp \<noteq> DSA_PORT_TYPE_UNUSED)
              (ports (netdev k)) = Some dp
      \<longrightarrow> fst (pvlan_store buf count k) \<noteq> Inl EINVAL"
    by (simp add: pvlan_store_def pvlan_store_ports_not_einval)
  have rf: "\<forall>pg rg sz setup_get_reg.
        sscanf buf [conv_x, Lit (CHR '':''), conv_x, Lit (CHR '':''), conv_x] = [pg, rg, sz]
        \<and> switch_setup_get_reg (ds_ops (dsa_ptr (netdev k))) = Some setup_get_reg
      \<longrightarrow> rdreg_store buf count k =
            (if fst (setup_get_reg (ds_priv k) (ucast pg) (ucast rg) (ucast sz)) = 0
             then Inr count else Inl EIO,
             k\<lparr>ds_priv := snd (setup_get_reg (ds_priv k) (ucast pg) (ucast rg) (ucast sz)),
               calls := calls k @ [Switch_setup_get_reg (ucast pg) (ucast rg) (ucast sz)]\<rparr>)"
    using rdreg_store_fields [of buf _ _ _ k _ count] by blast
  have wf: "\<forall>pg rg sz v set_reg.
        sscanf buf [conv_x, Lit (CHR '':''), conv_x, Lit (CHR '':''), conv_x,
                          Lit (CHR '':''), conv_x] = [pg, rg, sz, v]
        \<and> switch_set_reg (ds_ops (dsa_ptr (netdev k))) = Some set_reg
      \<longrightarrow> wrreg_store buf count k =
            (if fst (set_reg (ds_priv k) (ucast pg) (ucast rg) (ucast sz) v) = 0
             then Inr count else Inl EIO,
             k\<lparr>ds_priv := snd (set_reg (ds_priv k) (ucast pg) (ucast rg) (ucast sz) v),
               calls := calls k @ [Switch_set_reg (ucast pg) (ucast rg) (ucast sz) v]\<rparr>)"
    using wrreg_store_fields [of buf _ _ _ _ k _ count] by blast
  show ?thesis
    using p r w m rf wf pn pf by (intro conjI)
qed

theorem malformed_writes_rejected_witness:
  "pvlan_store ''3'' 1 debug_kernel = (Inl EINVAL, debug_kernel)
   \<and> rdreg_store ''1:2'' 3 debug_kernel = (Inl EINVAL, debug_kernel)
   \<and> wrreg_store ''1:2:4'' 5 debug_kernel = (Inl EINVAL, debug_kernel)
   \<and> spi_mutex_store ''1'' 1 debug_kernel = (Inl EINVAL, debug_kernel)
   \<and> rdreg_store ''0:0:3'' 5 debug_kernel
       = (Inl EIO, debug_kernel\<lparr>calls := [Switch_setup_get_reg 0 0 3]\<rparr>)
   \<and> rdreg_store ''1:2:4:ff'' 8 debug_kernel
       = (Inr 8, debug_kernel\<lparr>ds_priv := (ds_priv debug_kernel)\<lparr>pending := Some (1, 2, 4)\<rparr>,
                               calls := [Switch_setup_get_reg 1 2 4]\<rparr>)
   \<and> fst (wrreg_store ''0:0:3:ff'' 8 debug_kernel) = Inl EIO
   \<and> calls (snd (wrreg_store ''0:0:3:ff'' 8 debug_kernel)) = [Switch_set_reg 0 0 3 0xff]
   \<and> pvlan_store ''99:0a5'' 6 debug_kernel = (Inl EINVAL, debug_kernel)"
proof -
  have s: "sscanf ''3'' [conv_d, Lit (CHR '':''), conv_x] = [3]"
    "sscanf ''1:2'' [conv_x, Lit (CHR '':''), conv_x, Lit (CHR '':''), conv_x] = [1, 2]"
    "sscanf ''1:2:4'' [conv_x, Lit (CHR '':''), conv_x, Lit (CHR '':''), conv_x,
                          Lit (CHR '':''), conv_x] = [1, 2, 4]"
    "sscanf ''0:0:3'' [conv_x, Lit (CHR '':''), conv_x, Lit (CHR '':''), conv_x] = [0, 0, 3]"
    "sscanf ''1:2:4:ff'' [conv_x, Lit (CHR '':''), conv_x, Lit (CHR '':''), conv_x] = [1, 2, 4]"
    "sscanf ''0:0:3:ff'' [conv_x, Lit (CHR '':''), conv_x, Lit (CHR '':''), conv_x,
                          Lit (CHR '':''), conv_x] = [0, 0, 3, 0xff]"
    "sscanf ''99:0a5'' [conv_d, Lit (CHR '':''), conv_x] = [99, 0xa5]"
    by (simp_all add: scan_defs)
  have o: "switch_setup_get_reg (ds_ops (dsa_ptr (netdev debug_kernel))) = Some debug_setup_get_reg"
    "switch_set_reg (ds_ops (dsa_ptr (netdev debug_kernel))) = Some debug_set_reg"
    "ports (netdev debug_kernel) = []"
    by (simp_all add: debug_kernel_def debug_ops_def)
  have d: "debug_setup_get_reg (ds_priv debug_kernel) 0 0 3 = (- 22, ds_priv debug_kernel)"
    "debug_setup_get_reg (ds_priv debug_kernel) 1 2 4
       = (0, (ds_priv debug_kernel)\<lparr>pending := Some (1, 2, 4)\<rparr>)"
    "debug_set_reg (ds_priv debug_kernel) 0 0 3 0xff = (- 22, ds_priv debug_kernel)"
    by (simp_all add: debug_setup_get_reg_def debug_set_reg_def valid_width_def)
  have c: "calls debug_kernel = []"
    by (simp add: debug_kernel_def)
  show ?thesis
    using malformed_writes_rejected [of "''3''" 1 debug_kernel]
      malformed_writes_rejected [of "''1:2''" 3 debug_kernel]
      malformed_writes_rejected [of "''1:2:4''" 5 debug_kernel]
      malformed_writes_rejected [of "''1''" 1 debug_kernel]
      malformed_writes_rejected [of "''0:0:3''" 5 debug_kernel]
      malformed_writes_rejected [of "''1:2:4:ff''" 8 debug_kernel]
      malformed_writes_rejected [of "''0:0:3:ff''" 8 debug_kernel]
      malformed_writes_rejected [of "''99:0a5''" 6 debug_kernel]
    by (simp add: s o d c)
qed

text \<open>
  Claim C3 as stated fails in two ways. A width outside 1, 2, 4, 6 and 8 is not answered
  with \<open>EINVAL\<close>: the prepare with width 3 is handed to the driver, and its rejection
  comes back as \<open>EIO\<close>. And a text with more tokens than the format has fields is not
  rejected: the prepare \<open>1:2:4:ff\<close>, the register write \<open>1:2:4:ff:9\<close> and the port
  VLAN write \<open>3:0a5:7\<close> are carried out.
\<close>

theorem malformed_writes_counterexample:
  "\<not> valid_width 3
   \<and> fst (rdreg_store ''0:0:3'' 5 debug_kernel) = Inl EIO
   \<and> calls (snd (rdreg_store ''0:0:3'' 5 debug_kernel)) = [Switch_setup_get_reg 0 0 3]
   \<and> fst (rdreg_store ''1:2:4:ff'' 8 debug_kernel) = Inr 8
   \<and> calls (snd (rdreg_store ''1:2:4:ff'' 8 debug_kernel)) = [Switch_setup_get_reg 1 2 4]
   \<and> fst (wrreg_store ''1:2:4:ff:9'' 10 debug_kernel) = Inr 10
   \<and> calls (snd (wrreg_store ''1:2:4:ff:9'' 10 debug_kernel)) = [Switch_set_reg 1 2 4 0xff]
   \<and> fst (pvlan_store ''3:0a5:7'' 7 (example_kernel pvlan_ops (pvlan_ports pvlan_ops))) = Inr 7
   \<and> calls (snd (pvlan_store ''3:0a5:7'' 7 (example_kernel pvlan_ops (pvlan_ports pvlan_ops))))
       = [Port_change_pvlan 3 0x0A5]"
  by (simp add: rdreg_store_def wrreg_store_def pvlan_store_def scan_defs debug_kernel_def
        debug_ops_def debug_setup_get_reg_def debug_set_reg_def valid_width_def log_call_def
        example_kernel_def pvlan_ports_def example_port_def pvlan_ops_def no_ops_def)

subsection \<open>Reading a raw register\<close>

lemma digits_nonempty: "1 \<le> length (digits b n)"
  by (subst digits.simps) simp

lemma digits_length:
  "2 \<le> b \<Longrightarrow> 0 < k \<Longrightarrow> n < b ^ k \<Longrightarrow> length (digits b n) \<le> k"
proof (induction b n arbitrary: k rule: digits.induct)
  case (1 b n)
  show ?case
  proof (cases "n < b \<or> b < 2")
    case True
    then show ?thesis
      using "1.prems" by (subst digits.simps) simp
  next
    case False
    then have nb: "b \<le> n" by simp
    have k1: "1 < k"
    proof (rule ccontr)
      assume "\<not> 1 < k"
      with \<open>0 < k\<close> have "k = 1" by simp
      with \<open>n < b ^ k\<close> nb show False by simp
    qed
    then obtain j where j: "k = Suc j" "0 < j"
      by (cases k) auto
    have "n div b < b ^ j"
      using \<open>n < b ^ k\<close> j \<open>2 \<le> b\<close>
      by (simp add: less_mult_imp_div_less mult.commute)
    then have "length (digits b (n div b)) \<le> j"
      using "1.IH" [OF False \<open>2 \<le> b\<close> j(2)] by simp
    then show ?thesis
      using False j by (subst digits.simps) simp
  qed
qed

lemma fmt_x_length:
  "0 < k \<Longrightarrow> n < 2 ^ (8 * k) \<Longrightarrow> 1 \<le> length (fmt_x n) \<and> length (fmt_x n) \<le> 2 * k"
proof -
  assume k: "0 < k" and n: "n < 2 ^ (8 * k)"
  have "(16::nat) ^ (2 * k) = (2 ^ 4) ^ (2 * k)"
    by simp
  also have "\<dots> = 2 ^ (4 * (2 * k))"
    by (rule power_mult [symmetric])
  also have "\<dots> = 2 ^ (8 * k)"
    by simp
  finally have "n < 16 ^ (2 * k)"
    using n by simp
  then have "length (digits 16 n) \<le> 2 * k"
    using k by (intro digits_length) simp_all
  then show ?thesis
    using digits_nonempty [of 16 n] by (simp add: fmt_x_def)
qed



lemma valid_width_cases:
  "valid_width w \<Longrightarrow> w = 1 \<or> w = 2 \<or> w = 4 \<or> w = 6 \<or> w = 8"
  by (simp add: valid_width_def)

lemma rdreg_show_answer:
  assumes get: "switch_get_reg (ds_ops (dsa_ptr (netdev k))) = Some get"
    and ans: "get (ds_priv k) = ((0, w, v), p)"
    and w: "valid_width w"
  shows "rdreg_show k =
           (Inr (fmt_x (unat v mod 2 ^ (8 * (if w = 6 then 8 else unat w))) @ [CHR 0x0A]),
            k\<lparr>ds_priv := p, calls := calls k @ [Switch_get_reg]\<rparr>)"
proof -
  have u64: "unat v mod 18446744073709551616 = unat v"
    using unsigned_less [of v, where 'a = nat] by simp
  from valid_width_cases [OF w] show ?thesis
    by (elim disjE) (simp_all add: rdreg_show_def get ans log_call_def unsigned_ucast_eq take_bit_eq_mod u64)
qed

text \<open>
  Claim C4, as the code has it. After a prepare that the driver accepts, a read to which
  the driver answers a width among 1, 2, 4, 6 and 8 and a value prints the value in
  lower-case hexadecimal without padding, followed by a newline: the value is cut to the
  width for the widths 1, 2 and 4 and printed as the whole 64-bit value for 6 and 8, so the
  number of digits is at least 1 and at most twice the width (at most 16 for width 6).
\<close>

theorem rdreg_prepare_then_read:
  assumes scan: "sscanf buf [conv_x, Lit (CHR '':''), conv_x, Lit (CHR '':''), conv_x] = [pg, rg, sz]"
    and prep: "switch_setup_get_reg (ds_ops (dsa_ptr (netdev k))) = Some setup"
    and get: "switch_get_reg (ds_ops (dsa_ptr (netdev k))) = Some get"
    and acc: "setup (ds_priv k) (ucast pg) (ucast rg) (ucast sz) = (0, p1)"
    and ans: "get p1 = ((0, w, v), p2)"
    and w: "valid_width w"
  shows "fst (rdreg_store buf count k) = Inr count
         \<and> fst (rdreg_show (snd (rdreg_store buf count k)))
             = Inr (fmt_x (unat v mod 2 ^ (8 * (if w = 6 then 8 else unat w))) @ [CHR 0x0A])
         \<and> 1 \<le> length (fmt_x (unat v mod 2 ^ (8 * (if w = 6 then 8 else unat w))))
         \<and> length (fmt_x (unat v mod 2 ^ (8 * (if w = 6 then 8 else unat w))))
             \<le> 2 * (if w = 6 then 8 else unat w)"
proof -
  define k1 where "k1 = k\<lparr>ds_priv := p1, calls := calls k @ [Switch_setup_get_reg (ucast pg) (ucast rg) (ucast sz)]\<rparr>"
  have st: "rdreg_store buf count k = (Inr count, k1)"
    by (simp add: rdreg_store_def scan prep acc log_call_def k1_def)
  have "switch_get_reg (ds_ops (dsa_ptr (netdev k1))) = Some get" "get (ds_priv k1) = ((0, w, v), p2)"
    by (simp_all add: k1_def get ans)
  then have sh: "fst (rdreg_show k1)
      = Inr (fmt_x (unat v mod 2 ^ (8 * (if w = 6 then 8 else unat w))) @ [CHR 0x0A])"
    using w by (simp add: rdreg_show_answer)
  have pos: "0 < (if w = 6 then 8 else unat w)"
    using valid_width_cases [OF w] by auto
  have "unat v mod 2 ^ (8 * (if w = 6 then 8 else unat w)) < 2 ^ (8 * (if w = 6 then 8 else unat w))"
    by simp
  from fmt_x_length [OF pos this] st sh show ?thesis
    by simp
qed

theorem rdreg_prepare_then_read_witness:
  "fst (rdreg_store ''10:2:4'' 6 debug_kernel) = Inr 6
   \<and> fst (rdreg_show (snd (rdreg_store ''10:2:4'' 6 debug_kernel))) = Inr (''5'' @ [CHR 0x0A])"
proof -
  have scan: "sscanf ''10:2:4'' [conv_x, Lit (CHR '':''), conv_x, Lit (CHR '':''), conv_x] = [0x10, 2, 4]"
    by (simp add: scan_defs)
  have prep: "switch_setup_get_reg (ds_ops (dsa_ptr (netdev debug_kernel))) = Some debug_setup_get_reg"
    and get: "switch_get_reg (ds_ops (dsa_ptr (netdev debug_kernel))) = Some debug_get_reg"
    by (simp_all add: debug_kernel_def debug_ops_def)
  have acc: "debug_setup_get_reg (ds_priv debug_kernel) (ucast (0x10 :: u64)) (ucast (2 :: u64)) (ucast (4 :: u64))
               = (0, \<lparr>pending = Some (0x10, 2, 4), registers = (\<lambda>page reg. 5)\<rparr>)"
    by (simp add: debug_setup_get_reg_def valid_width_def debug_kernel_def)
  have ans: "debug_get_reg \<lparr>pending = Some (0x10, 2, 4), registers = (\<lambda>page reg. 5)\<rparr>
               = ((0, 4, 5), \<lparr>pending = Some (0x10, 2, 4), registers = (\<lambda>page reg. 5)\<rparr>)"
    by (simp add: debug_get_reg_def)
  have w: "valid_width 4"
    by (simp add: valid_width_def)
  show ?thesis
    using rdreg_prepare_then_read [OF scan prep get acc ans w, of 6]
    by (simp add: fmt_x_def digits.simps digit_char_def)
qed

text \<open>
  Claim C4 as stated fails: a register of width 1 holding 5 is printed with one digit,
  not two.
\<close>

theorem rdreg_show_unpadded_counterexample:
  "fst (rdreg_store ''0:0:1'' 5 debug_kernel) = Inr 5
   \<and> fst (rdreg_show (snd (rdreg_store ''0:0:1'' 5 debug_kernel))) = Inr (''5'' @ [CHR 0x0A])"
  by (simp add: rdreg_store_def rdreg_show_def scan_defs debug_kernel_def debug_ops_def
        debug_setup_get_reg_def debug_get_reg_def valid_width_def log_call_def
        fmt_x_def digits.simps digit_char_def)

subsection \<open>The string table\<close>

lemma port_pfx_two_digits:
  assumes "0 \<le> port" "port \<le> 99"
  shows "port_pfx port = [CHR ''p'', digit_char (nat port div 10), digit_char (nat port mod 10), CHR ''_'']"
proof (cases "port < 10")
  case True
  then have "nat port < 10" "nat port div 10 = 0" "nat port mod 10 = nat port"
    using assms by simp_all
  then show ?thesis
    using assms
    by (simp add: port_pfx_def fmt_d_prec_def zero_pad_def digits.simps [of 10 "nat port"] digit_char_def)
next
  case False
  then have a: "\<not> nat port < 10" "nat port div 10 < 10"
    using assms by simp_all
  have "digits 10 (nat port) = [digit_char (nat port div 10), digit_char (nat port mod 10)]"
    using a by (simp add: digits.simps [of 10 "nat port"] digits.simps [of 10 "nat port div 10"])
  then show ?thesis
    using assms by (simp add: port_pfx_def fmt_d_prec_def zero_pad_def)
qed

lemma prefix_step_move:
  assumes "length s = 32"
  shows "memmove (length a + 4) (length a) 28 (a @ s @ r) = Inr (a @ take 4 s @ take 28 s @ r)"
  using assms by (simp add: memmove_def memcpy_def)

lemma prefix_step_copy:
  assumes "length s = 32" "length pfx = 4"
  shows "memcpy (length a) pfx (a @ take 4 s @ take 28 s @ r) = Inr (a @ pfx @ take 28 s @ r)"
  using assms by (simp add: memcpy_def)

lemma prefix_strings_concat:
  assumes "length pfx = 4" "\<forall>s \<in> set ss. length s = 32" "length a = ndata + i * 32"
  shows "prefix_strings (length ss) i ndata pfx (a @ concat ss @ r)
         = Inr (a @ concat (map (\<lambda>s. pfx @ take 28 s) ss) @ r)"
  using assms(2,3)
proof (induction ss arbitrary: a i)
  case Nil
  then show ?case by simp
next
  case (Cons s ss)
  have s: "length s = 32" using Cons.prems(1) by simp
  have e1: "ndata + (i * ETH_GSTRING_LEN + length pfx) = length a + 4"
    and e2: "ndata + i * ETH_GSTRING_LEN = length a"
    and e3: "ETH_GSTRING_LEN - length pfx = 28"
    using Cons.prems(2) assms(1) by (simp_all add: ETH_GSTRING_LEN_def)
  have next_a: "length (a @ pfx @ take 28 s) = ndata + Suc i * 32"
    using Cons.prems(2) assms(1) s by simp
  have "prefix_strings (length (s # ss)) i ndata pfx (a @ concat (s # ss) @ r)
        = prefix_strings (length ss) (Suc i) ndata pfx ((a @ pfx @ take 28 s) @ concat ss @ r)"
    using prefix_step_move [OF s, of a "concat ss @ r"]
      prefix_step_copy [OF s assms(1), of a "concat ss @ r"]
    by (simp add: e1 e2 e3)
  also have "\<dots> = Inr ((a @ pfx @ take 28 s) @ concat (map (\<lambda>s. pfx @ take 28 s) ss) @ r)"
    using Cons.prems(1) by (intro Cons.IH next_a) simp
  finally show ?case by simp
qed

text \<open>
  Claim C7. Let the CPU port have an index from 0 to 99, let the switch driver provide
  \<open>get_strings\<close> and \<open>get_sset_count\<close>, and let the buffer, after the master and the
  switch driver have written their strings, consist of the master's segment \<open>m\<close> of
  \<open>mcount\<close> strings, the strings \<open>ss\<close> of the switch port, as many as the driver
  counts and each \<open>ETH_GSTRING_LEN\<close> bytes wide, and the bytes \<open>rest\<close> behind them.
  Then \<open>dsa_master_get_strings\<close> leaves \<open>m\<close> and \<open>rest\<close> as they are and replaces
  every string of \<open>ss\<close> by the prefix followed by the first
  \<open>ETH_GSTRING_LEN - 4\<close> bytes of the string; the prefix is the four bytes \<open>p\<close>, the
  two decimal digits of the port index and \<open>_\<close>; every rewritten string is again
  \<open>ETH_GSTRING_LEN\<close> bytes wide, and the buffer keeps its length.
\<close>

theorem dsa_master_get_strings_prefixed:
  assumes port: "0 \<le> index (dsa_ptr dev) \<and> index (dsa_ptr dev) \<le> 99"
    and master: "master_get_strings dev stringset data = Inr (mcount, mdata)"
    and strs: "get_strings (ds_ops (dsa_ptr dev)) = Some strings"
    and cnt: "get_sset_count (ds_ops (dsa_ptr dev)) = Some sset_count"
    and written: "memcpy (nat mcount * ETH_GSTRING_LEN) (strings priv (index (dsa_ptr dev)) stringset) mdata
                    = Inr (m @ concat ss @ rest)"
    and m: "length m = nat mcount * ETH_GSTRING_LEN"
    and ss: "\<forall>s \<in> set ss. length s = ETH_GSTRING_LEN"
    and count: "sset_count priv (index (dsa_ptr dev)) stringset = int (length ss)"
  shows "dsa_master_get_strings dev priv stringset data
           = Inr (m @ concat (map (\<lambda>s. port_pfx (index (dsa_ptr dev)) @ take (ETH_GSTRING_LEN - 4) s) ss) @ rest)
         \<and> port_pfx (index (dsa_ptr dev))
             = [CHR ''p'', digit_char (nat (index (dsa_ptr dev)) div 10),
                digit_char (nat (index (dsa_ptr dev)) mod 10), CHR ''_'']
         \<and> (\<forall>s \<in> set ss. length (port_pfx (index (dsa_ptr dev)) @ take (ETH_GSTRING_LEN - 4) s)
                             = ETH_GSTRING_LEN)
         \<and> length (m @ concat (map (\<lambda>s. port_pfx (index (dsa_ptr dev)) @ take (ETH_GSTRING_LEN - 4) s) ss) @ rest)
             = length data"
proof -
  let ?pfx = "port_pfx (index (dsa_ptr dev))"
  have pfx: "?pfx = [CHR ''p'', digit_char (nat (index (dsa_ptr dev)) div 10),
                digit_char (nat (index (dsa_ptr dev)) mod 10), CHR ''_'']"
    using port by (intro port_pfx_two_digits) simp_all
  then have lp: "length ?pfx = 4" by simp
  have ss32: "\<forall>s \<in> set ss. length s = 32"
    using ss by (simp add: ETH_GSTRING_LEN_def)
  have la: "length m = nat mcount * ETH_GSTRING_LEN + 0 * 32"
    using m by simp
  have loop: "prefix_strings (length ss) 0 (nat mcount * ETH_GSTRING_LEN) ?pfx (m @ concat ss @ rest)
              = Inr (m @ concat (map (\<lambda>s. ?pfx @ take 28 s) ss) @ rest)"
    using lp ss32 la by (rule prefix_strings_concat)
  have res: "dsa_master_get_strings dev priv stringset data
           = Inr (m @ concat (map (\<lambda>s. ?pfx @ take (ETH_GSTRING_LEN - 4) s) ss) @ rest)"
    using loop
    by (simp add: dsa_master_get_strings_def master strs cnt written count Let_def)
       (simp add: ETH_GSTRING_LEN_def)
  have same: "\<forall>s \<in> set ss. length (?pfx @ take (ETH_GSTRING_LEN - 4) s) = ETH_GSTRING_LEN"
    using ss lp by (simp add: ETH_GSTRING_LEN_def)
  have len_mem: "length b = length a" if "memcpy off bytes a = Inr b" for off bytes and a b :: string
    using that by (auto simp add: memcpy_def split: if_splits)
  have d1: "length mdata = length data"
    using master
    by (auto simp add: master_get_strings_def Let_def split: if_splits option.splits sum.splits
        dest: len_mem)
  have "length (m @ concat ss @ rest) = length data"
    using len_mem [OF written] d1 by simp
  moreover have "length (concat (map (\<lambda>s. ?pfx @ take (ETH_GSTRING_LEN - 4) s) ss)) = length (concat ss)"
    using ss lp by (induction ss) (simp_all add: ETH_GSTRING_LEN_def)
  ultimately have len: "length (m @ concat (map (\<lambda>s. ?pfx @ take (ETH_GSTRING_LEN - 4) s) ss) @ rest)
             = length data"
    by simp
  from res pfx same len show ?thesis
    by simp
qed

theorem dsa_master_get_strings_prefixed_witness:
  "dsa_master_get_strings strings_dev () 1 (replicate 96 (CHR 0x00))
     = Inr (gstring ''m_rx'' @ gstring ''p08_rx_packets'' @ gstring ''p08_tx_packets'')"
proof -
  have i: "index (dsa_ptr strings_dev) = 8"
    by (simp add: strings_dev_def)
  have port: "0 \<le> index (dsa_ptr strings_dev) \<and> index (dsa_ptr strings_dev) \<le> 99"
    by (simp add: i)
  have master: "master_get_strings strings_dev 1 (replicate 96 (CHR 0x00))
                  = Inr (1, gstring ''m_rx'' @ replicate 64 (CHR 0x00))"
    by (simp add: master_get_strings_def strings_dev_def ETH_SS_PHY_STATS_def memcpy_def
        gstring_def ETH_GSTRING_LEN_def)
  have strs: "get_strings (ds_ops (dsa_ptr strings_dev))
                = Some (\<lambda>d port sset. gstring ''rx_packets'' @ gstring ''tx_packets'')"
    and cnt: "get_sset_count (ds_ops (dsa_ptr strings_dev)) = Some (\<lambda>d port sset. 2)"
    by (simp_all add: strings_dev_def strings_ops_def)
  have written: "memcpy (nat 1 * ETH_GSTRING_LEN)
                   ((\<lambda>d port sset. gstring ''rx_packets'' @ gstring ''tx_packets'') ()
                      (index (dsa_ptr strings_dev)) 1)
                   (gstring ''m_rx'' @ replicate 64 (CHR 0x00))
                 = Inr (gstring ''m_rx'' @ concat [gstring ''rx_packets'', gstring ''tx_packets''] @ [])"
    by (simp add: memcpy_def gstring_def ETH_GSTRING_LEN_def)
  have m: "length (gstring ''m_rx'') = nat 1 * ETH_GSTRING_LEN"
    by (simp add: gstring_def ETH_GSTRING_LEN_def)
  have ss: "\<forall>s \<in> set [gstring ''rx_packets'', gstring ''tx_packets'']. length s = ETH_GSTRING_LEN"
    by (simp add: gstring_def ETH_GSTRING_LEN_def)
  have count: "(\<lambda>d port sset. 2) () (index (dsa_ptr strings_dev)) 1
                 = int (length [gstring ''rx_packets'', gstring ''tx_packets''])"
    by simp
  have p: "port_pfx 8 = ''p08_''"
    by (simp add: port_pfx_def fmt_d_prec_def zero_pad_def digits.simps digit_char_def)
  have g: "''p08_'' @ take (ETH_GSTRING_LEN - 4) (gstring ''rx_packets'') = gstring ''p08_rx_packets''"
    "''p08_'' @ take (ETH_GSTRING_LEN - 4) (gstring ''tx_packets'') = gstring ''p08_tx_packets''"
    by (simp_all add: gstring_def ETH_GSTRING_LEN_def)
  have "dsa_master_get_strings strings_dev () 1 (replicate 96 (CHR 0x00))
          = Inr (gstring ''m_rx'' @
                 concat (map (\<lambda>s. port_pfx (index (dsa_ptr strings_dev)) @ take (ETH_GSTRING_LEN - 4) s)
                          [gstring ''rx_packets'', gstring ''tx_packets'']) @ [])"
    using dsa_master_get_strings_prefixed
      [where dev = strings_dev and stringset = 1 and data = "replicate 96 (CHR 0x00)"
         and mcount = 1 and mdata = "gstring ''m_rx'' @ replicate 64 (CHR 0x00)"
         and strings = "\<lambda>d port sset. gstring ''rx_packets'' @ gstring ''tx_packets''"
         and sset_count = "\<lambda>d port sset. 2" and priv = "()"
         and m = "gstring ''m_rx''" and ss = "[gstring ''rx_packets'', gstring ''tx_packets'']"
         and rest = "[]",
       OF port master strs cnt written m ss count]
    by (rule conjunct1)
  then show ?thesis
    by (simp only: i p list.map concat.simps append_Nil2 g append_assoc)
qed

end
